theory Spec2Isabelle
  imports Complex_Main "HOL-Library.Sublist"
begin

section \<open>JavaScript values and plain objects\<close>

text \<open>
  The script is Google Apps Script (JavaScript). The values that flow through the
  aggregation are numbers, \<open>undefined\<close>, and, when a key happens to be the name of a
  property inherited from \<open>Object.prototype\<close>, a function, an object or a string.
  \<open>Num x\<close> is a finite number (rounding of IEEE doubles is not modelled, sums are
  exact), \<open>NaN\<close> is not-a-number, and \<open>Junk\<close> stands for any truthy value that is not
  a number (a function, an object, a non-empty string).
\<close>

datatype jsval = Undefined | NaN | Num real | Junk

text \<open>Truthiness, as used by \<open>!x\<close>, \<open>x || y\<close> and \<open>if (x)\<close>.\<close>

fun truthy :: "jsval \<Rightarrow> bool" where
  "truthy Undefined = False"
| "truthy NaN = False"
| "truthy (Num x) = (x \<noteq> 0)"
| "truthy Junk = True"

text \<open>\<open>a || b\<close>.\<close>

definition js_or :: "jsval \<Rightarrow> jsval \<Rightarrow> jsval" where
  "js_or a b = (if truthy a then a else b)"

text \<open>
  \<open>v + n\<close> for a number \<open>n\<close>: \<open>undefined + n\<close> is \<open>NaN\<close>; a function, object or
  string is converted to a string and concatenated, which gives a non-empty string.
\<close>

fun js_plus :: "jsval \<Rightarrow> real \<Rightarrow> jsval" where
  "js_plus Undefined n = NaN"
| "js_plus NaN n = NaN"
| "js_plus (Num x) n = Num (x + n)"
| "js_plus Junk n = Junk"

text \<open>
  A plain object \<open>{}\<close> used as a dictionary: its own properties are a map, and a read
  of a key that is not an own property goes to \<open>Object.prototype\<close>, whose properties
  are functions (or, for \<open>__proto__\<close>, the prototype object itself).
\<close>

type_synonym jsobj = "string \<Rightarrow> jsval option"

definition Object_prototype_names :: "string list" where
  "Object_prototype_names =
     [''constructor'', ''hasOwnProperty'', ''isPrototypeOf'', ''propertyIsEnumerable'',
      ''toLocaleString'', ''toString'', ''valueOf'', ''__proto__'',
      ''__defineGetter__'', ''__defineSetter__'', ''__lookupGetter__'', ''__lookupSetter__'']"

text \<open>\<open>obj[k]\<close>.\<close>

definition js_get :: "jsobj \<Rightarrow> string \<Rightarrow> jsval" where
  "js_get obj k =
     (case obj k of
        Some v \<Rightarrow> v
      | None \<Rightarrow> if k \<in> set Object_prototype_names then Junk else Undefined)"

text \<open>
  \<open>obj[k] = v\<close> for a number or string \<open>v\<close>: it creates or overwrites the own property,
  except for \<open>__proto__\<close>, whose setter ignores a value that is not an object.
\<close>

definition js_set :: "jsobj \<Rightarrow> string \<Rightarrow> jsval \<Rightarrow> jsobj" where
  "js_set obj k v = (if k = ''__proto__'' then obj else obj(k \<mapsto> v))"

section \<open>Strings and arrays\<close>

text \<open>\<open>s.indexOf(p)\<close> on strings: the position of the leftmost occurrence, or \<open>-1\<close>.\<close>

fun String_indexOf :: "string \<Rightarrow> string \<Rightarrow> int" where
  "String_indexOf [] p = (if p = [] then 0 else - 1)"
| "String_indexOf (c # cs) p =
     (if prefix p (c # cs) then 0
      else (let i = String_indexOf cs p in if i = - 1 then - 1 else i + 1))"

text \<open>
  \<open>s.replace(p, r)\<close> with a string pattern \<open>p\<close>: only the leftmost occurrence is
  replaced (\<open>r\<close> holds no \<open>$\<close> pattern in this program, it is the empty string).
\<close>

fun String_replace :: "string \<Rightarrow> string \<Rightarrow> string \<Rightarrow> string" where
  "String_replace [] p r = (if p = [] then r else [])"
| "String_replace (c # cs) p r =
     (if prefix p (c # cs) then r @ drop (length p) (c # cs)
      else c # String_replace cs p r)"

text \<open>\<open>xs.indexOf(x)\<close> on arrays (strict equality), or \<open>-1\<close>.\<close>

fun Array_indexOf :: "'a list \<Rightarrow> 'a \<Rightarrow> int" where
  "Array_indexOf [] x = - 1"
| "Array_indexOf (y # ys) x =
     (if y = x then 0
      else (let i = Array_indexOf ys x in if i = - 1 then - 1 else i + 1))"

section \<open>The world the script runs in\<close>

text \<open>
  A log row is its level and its message; the timestamp column is left out. A message
  built by a template literal is the list of its parts, so that no number has to be
  rendered as text.
\<close>

datatype level = INFO | ERROR

datatype part = Str string | Val jsval

type_synonym log_entry = "level \<times> part list"

datatype http_method = GET | PATCH

record http_request =
  http_method :: http_method
  url :: string
  authorization :: string
  payload :: "(string \<times> jsval) list"

datatype prop_event = GetProperty string | SetProperty string string

text \<open>
  The mutable state: the rows of the "Logs" sheet, the requests handed to
  \<open>UrlFetchApp.fetch\<close> so far, the script properties with the trace of the accesses to
  them, and the milliseconds spent in \<open>Utilities.sleep\<close>.
\<close>

record world =
  logs :: "log_entry list"
  httpTrace :: "http_request list"
  props :: "string \<Rightarrow> string option"
  propAccess :: "prop_event list"
  sleptMs :: nat

definition logMessage :: "part list \<Rightarrow> world \<Rightarrow> world" where
  "logMessage message w = w\<lparr>logs := logs w @ [(INFO, message)]\<rparr>"

definition logError :: "part list \<Rightarrow> world \<Rightarrow> world" where
  "logError errorMessage w = w\<lparr>logs := logs w @ [(ERROR, errorMessage)]\<rparr>"

section \<open>Configuration constants\<close>

text \<open>
  The script holds the API key as a string constant. The key is a credential, so its
  characters are not repeated here; it only ever appears in the \<open>Authorization\<close>
  header, and nothing below depends on its value.
\<close>

definition AIRTABLE_API_KEY :: string where
  "AIRTABLE_API_KEY = ''(the API key)''"

definition AIRTABLE_BASE_ID :: string where
  "AIRTABLE_BASE_ID = ''appGDzLGgrYmcW9R1''"

definition AIRTABLE_TABLE_ID :: string where
  "AIRTABLE_TABLE_ID = ''tblTo3zgLYNby9UnL''"

definition SHEET_NAME :: string where
  "SHEET_NAME = ''raw_import''"

definition ACTBLUE_URL_PREFIX :: string where
  "ACTBLUE_URL_PREFIX = ''https://secure.actblue.com/donate/''"

definition RATE_LIMIT_HOURS :: real where
  "RATE_LIMIT_HOURS = 1"

definition RATE_LIMIT_PROP_KEY :: string where
  "RATE_LIMIT_PROP_KEY = ''lastAutoSyncTime''"

section \<open>processData\<close>

text \<open>
  The objects the pipeline passes on. \<open>airtableId\<close> is the field \<open>id\<close> of a record
  fetched from Airtable and \<open>recordId\<close> the field \<open>id\<close> of an entry of
  \<open>processedData\<close> (\<open>id\<close> itself is a constant of HOL).
\<close>

record remote_record =
  airtableId :: string
  actBlueUrl :: string
  formSlug :: string

record sheet_row =
  formName :: string
  dollarsRaised :: real
  numDonations :: real

record update_instruction =
  recordId :: string
  raised :: jsval
  donations :: jsval

text \<open>
  The body of \<open>sheetData.forEach\<close>: the two objects \<open>formTotals\<close> and
  \<open>formDonations\<close> are initialised when \<open>!formTotals[formName]\<close>, then both are
  incremented.
\<close>

definition aggregateItem :: "jsobj \<times> jsobj \<Rightarrow> sheet_row \<Rightarrow> jsobj \<times> jsobj" where
  "aggregateItem acc item =
     (let formTotals = fst acc;
          formDonations = snd acc;
          k = formName item;
          amount = dollarsRaised item;
          n = numDonations item;
          initialised =
            (if \<not> truthy (js_get formTotals k)
             then (js_set formTotals k (Num 0), js_set formDonations k (Num 0))
             else (formTotals, formDonations));
          formTotals1 = fst initialised;
          formDonations1 = snd initialised
      in (js_set formTotals1 k (js_plus (js_get formTotals1 k) amount),
          js_set formDonations1 k (js_plus (js_get formDonations1 k) n)))"

definition aggregate :: "sheet_row list \<Rightarrow> jsobj \<times> jsobj" where
  "aggregate sheetData = foldl aggregateItem (Map.empty, Map.empty) sheetData"

text \<open>The body of \<open>airtableRecords.forEach\<close>: at most one entry is pushed.\<close>

definition matchRecord :: "jsobj \<times> jsobj \<Rightarrow> remote_record \<Rightarrow> update_instruction list" where
  "matchRecord totals record =
     (let formTotals = fst totals;
          formDonations = snd totals;
          k = formSlug record
      in if js_get formTotals k \<noteq> Undefined \<or> js_get formDonations k \<noteq> Undefined
         then [\<lparr>recordId = airtableId record,
                raised = js_or (js_get formTotals k) (Num 0),
                donations = js_or (js_get formDonations k) (Num 0)\<rparr>]
         else [])"

definition processData ::
  "remote_record list \<Rightarrow> sheet_row list \<Rightarrow> world \<Rightarrow> update_instruction list \<times> world" where
  "processData airtableRecords sheetData w =
     (let w1 = logMessage [Str ''Processing and aggregating data...''] w;
          totals = aggregate sheetData;
          processedData = concat (map (matchRecord totals) airtableRecords);
          w2 = logMessage [Str ''Matched and processed '',
                           Val (Num (real (length processedData))),
                           Str '' records''] w1
      in (processedData, w2))"

section \<open>The environment: Airtable, the spreadsheet, built-in functions\<close>

text \<open>
  A record of the Airtable response: its id and its fields. The two fields the script
  reads hold URLs, so a field is a string, or absent.
\<close>

record airtable_item =
  item_id :: string
  item_fields :: "string \<Rightarrow> string option"

text \<open>
  What \<open>UrlFetchApp.fetch\<close> does with a request: it throws (also counted here: a
  response body that \<open>JSON.parse\<close> rejects), or it returns a response with a status
  code and, for a read, the parsed \<open>data.records\<close> (\<open>None\<close> when the body has none).
\<close>

datatype http_reply = FetchError string | Reply int "airtable_item list option"

text \<open>A cell of \<open>getValues()\<close>; \<open>CUndef\<close> is a read past the end of a row.\<close>

datatype cell = CStr string | CNum real | CBool bool | CDate int | CUndef

text \<open>
  The environment is everything the script does not define: the Airtable server (its
  reply may depend on the requests made before), the sheets of the spreadsheet by name,
  and the built-ins \<open>parseFloat\<close>, \<open>parseInt\<close> (\<open>None\<close> is \<open>NaN\<close>, and a result is
  finite), the parsing of a date string (\<open>None\<close> is an invalid date) and
  \<open>toISOString\<close>. Times are milliseconds since the epoch.
\<close>

record env =
  server :: "http_request list \<Rightarrow> http_request \<Rightarrow> http_reply"
  getSheetByName :: "string \<Rightarrow> cell list list option"
  parseFloat :: "cell \<Rightarrow> real option"
  parseInt :: "cell \<Rightarrow> int option"
  Date_parse :: "string \<Rightarrow> int option"
  toISOString :: "int \<Rightarrow> string"

definition UrlFetchApp_fetch :: "env \<Rightarrow> http_request \<Rightarrow> world \<Rightarrow> http_reply \<times> world" where
  "UrlFetchApp_fetch e req w =
     (server e (httpTrace w) req, w\<lparr>httpTrace := httpTrace w @ [req]\<rparr>)"

definition getProperty :: "string \<Rightarrow> world \<Rightarrow> string option \<times> world" where
  "getProperty key w = (props w key, w\<lparr>propAccess := propAccess w @ [GetProperty key]\<rparr>)"

definition setProperty :: "string \<Rightarrow> string \<Rightarrow> world \<Rightarrow> world" where
  "setProperty key v w =
     w\<lparr>props := (props w)(key \<mapsto> v), propAccess := propAccess w @ [SetProperty key v]\<rparr>"

definition Utilities_sleep :: "nat \<Rightarrow> world \<Rightarrow> world" where
  "Utilities_sleep ms w = w\<lparr>sleptMs := sleptMs w + ms\<rparr>"

section \<open>The rate limiter\<close>

text \<open>\<open>v < c\<close> for a number \<open>c\<close>: false when \<open>v\<close> is \<open>NaN\<close>.\<close>

fun js_less :: "jsval \<Rightarrow> real \<Rightarrow> bool" where
  "js_less (Num x) c = (x < c)"
| "js_less v c = False"

text \<open>
  \<open>now\<close> is what \<open>new Date()\<close> returns inside the call. \<open>!lastSyncTimeStr\<close> holds for
  \<open>null\<close> (no property) and for the empty string.
\<close>

definition shouldRespectRateLimit :: "env \<Rightarrow> int \<Rightarrow> world \<Rightarrow> bool \<times> world" where
  "shouldRespectRateLimit e now w =
     (let r = getProperty RATE_LIMIT_PROP_KEY w;
          lastSyncTimeStr = fst r;
          w1 = snd r
      in case lastSyncTimeStr of
           None \<Rightarrow> (False, w1)
         | Some s \<Rightarrow>
             if s = [] then (False, w1)
             else
               (let hoursDiff =
                      (case Date_parse e s of
                         None \<Rightarrow> NaN
                       | Some lastSyncTime \<Rightarrow>
                           Num (real_of_int (now - lastSyncTime) / (1000 * 60 * 60)))
                in (js_less hoursDiff RATE_LIMIT_HOURS, w1)))"

definition updateLastSyncTime :: "env \<Rightarrow> int \<Rightarrow> world \<Rightarrow> world" where
  "updateLastSyncTime e now w = setProperty RATE_LIMIT_PROP_KEY (toISOString e now) w"

section \<open>fetchAirtableRecords\<close>

text \<open>\<open>a || b\<close> on fields, and \<open>a || ''\<close>.\<close>

definition field_or :: "string option \<Rightarrow> string option \<Rightarrow> string option" where
  "field_or a b = (case a of None \<Rightarrow> b | Some s \<Rightarrow> if s = [] then b else Some s)"

definition field_or_empty :: "string option \<Rightarrow> string" where
  "field_or_empty a = (case a of None \<Rightarrow> [] | Some s \<Rightarrow> s)"

text \<open>The function mapped over \<open>data.records\<close>.\<close>

definition extractRecord :: "airtable_item \<Rightarrow> remote_record" where
  "extractRecord record =
     (let actBlueUrl =
            field_or_empty
              (field_or (item_fields record ''ActBlue Page'') (item_fields record ''fldxiPzVeVCUXsnq1''));
          formSlug =
            (if actBlueUrl \<noteq> [] \<and> String_indexOf actBlueUrl ACTBLUE_URL_PREFIX \<noteq> - 1
             then String_replace actBlueUrl ACTBLUE_URL_PREFIX []
             else [])
      in \<lparr>airtableId = item_id record, actBlueUrl = actBlueUrl, formSlug = formSlug\<rparr>)"

text \<open>\<open>data.records.map(...).filter(record => record.formSlug)\<close>.\<close>

definition validRecords :: "airtable_item list \<Rightarrow> remote_record list" where
  "validRecords items = filter (\<lambda>record. formSlug record \<noteq> []) (map extractRecord items)"

text \<open>The read request; it has no body.\<close>

definition getRequest :: http_request where
  "getRequest =
     \<lparr>http_method = GET,
      url = ''https://api.airtable.com/v0/'' @ AIRTABLE_BASE_ID @ ''/'' @ AIRTABLE_TABLE_ID,
      authorization = ''Bearer '' @ AIRTABLE_API_KEY,
      payload = []\<rparr>"

definition fetchAirtableRecords :: "env \<Rightarrow> world \<Rightarrow> remote_record list \<times> world" where
  "fetchAirtableRecords e w =
     (let w1 = logMessage [Str ''Fetching records from Airtable...''] w;
          r = UrlFetchApp_fetch e getRequest w1;
          w2 = snd r
      in case fst r of
           FetchError message \<Rightarrow>
             ([], logError [Str ''Error fetching Airtable records: '', Str message] w2)
         | Reply code None \<Rightarrow>
             ([], logError [Str ''No records found in Airtable response''] w2)
         | Reply code (Some items) \<Rightarrow>
             (let records = validRecords items
              in (records,
                  logMessage [Str ''Found '', Val (Num (real (length records))),
                              Str '' valid ActBlue form slugs in Airtable''] w2)))"

section \<open>getSheetData\<close>

fun cellTruthy :: "cell \<Rightarrow> bool" where
  "cellTruthy (CStr s) = (s \<noteq> [])"
| "cellTruthy (CNum x) = (x \<noteq> 0)"
| "cellTruthy (CBool b) = b"
| "cellTruthy (CDate t) = True"
| "cellTruthy CUndef = False"

text \<open>\<open>row[i]\<close>: \<open>undefined\<close> past the end of the row.\<close>

definition cellAt :: "cell list \<Rightarrow> nat \<Rightarrow> cell" where
  "cellAt row i = (if i < length row then row ! i else CUndef)"

text \<open>
  \<open>formSlugs.includes(formName)\<close>: the slugs are strings, so only a string cell can be
  among them.
\<close>

fun Array_includes :: "string list \<Rightarrow> cell \<Rightarrow> bool" where
  "Array_includes formSlugs (CStr s) = (s \<in> set formSlugs)"
| "Array_includes formSlugs c = False"

fun cellString :: "cell \<Rightarrow> string" where
  "cellString (CStr s) = s"
| "cellString c = []"

text \<open>\<open>parseFloat(c) || 0\<close> and \<open>parseInt(c) || 0\<close>.\<close>

definition parseFloat_or_0 :: "env \<Rightarrow> cell \<Rightarrow> real" where
  "parseFloat_or_0 e c = (case parseFloat e c of None \<Rightarrow> 0 | Some x \<Rightarrow> x)"

definition parseInt_or_0 :: "env \<Rightarrow> cell \<Rightarrow> real" where
  "parseInt_or_0 e c = (case parseInt e c of None \<Rightarrow> 0 | Some n \<Rightarrow> real_of_int n)"

text \<open>
  The state of the \<open>for\<close> loop over the data rows: \<open>sheetData\<close>, \<open>processedRows\<close>,
  \<open>matchedRows\<close> and the world (for the progress line every 50000 rows).
\<close>

type_synonym sheet_loop = "sheet_row list \<times> nat \<times> nat \<times> world"

definition sheetRowStep ::
  "env \<Rightarrow> string list \<Rightarrow> nat \<Rightarrow> nat \<Rightarrow> nat \<Rightarrow> sheet_loop \<Rightarrow> cell list \<Rightarrow> sheet_loop" where
  "sheetRowStep e formSlugs formNameIndex dollarsRaisedIndex numDonationsIndex st row =
     (let sheetData = fst st;
          processedRows = fst (snd st) + 1;
          matchedRows = fst (snd (snd st));
          w = snd (snd (snd st));
          formName = cellAt row formNameIndex;
          matched = (cellTruthy formName \<and> Array_includes formSlugs formName);
          sheetData1 =
            (if matched
             then
               (let dollarsRaised = parseFloat_or_0 e (cellAt row dollarsRaisedIndex);
                    numDonations = parseInt_or_0 e (cellAt row numDonationsIndex)
                in if dollarsRaised > 0 \<or> numDonations > 0
                   then sheetData @ [\<lparr>formName = cellString formName,
                                      dollarsRaised = dollarsRaised,
                                      numDonations = numDonations\<rparr>]
                   else sheetData)
             else sheetData);
          matchedRows1 = (if matched then matchedRows + 1 else matchedRows);
          w1 =
            (if processedRows mod 50000 = 0
             then logMessage [Str ''Processed '', Val (Num (real processedRows)),
                              Str '' rows, found '', Val (Num (real matchedRows1)),
                              Str '' matches so far...''] w
             else w)
      in (sheetData1, processedRows, matchedRows1, w1))"

definition getSheetData :: "env \<Rightarrow> remote_record list \<Rightarrow> world \<Rightarrow> sheet_row list \<times> world" where
  "getSheetData e airtableRecords w =
     (let w1 = logMessage [Str ''Retrieving data from Google Sheets...''] w
      in case getSheetByName e SHEET_NAME of
           None \<Rightarrow>
             ([], logError [Str (''Sheet '' @ [CHR 0x27]), Str SHEET_NAME,
                            Str (CHR 0x27 # '' not found'')] w1)
         | Some values \<Rightarrow>
             (let formSlugs = map formSlug airtableRecords;
                  w2 = logMessage [Str ''Will filter sheet data for '',
                                   Val (Num (real (length formSlugs))), Str '' form slugs''] w1
              in if length values \<le> 1
                 then ([], logError [Str ''No data found in sheet or only header row present''] w2)
                 else
                   (let headers = hd values;
                        formNameIndex = Array_indexOf headers (CStr ''form_name'');
                        dollarsRaisedIndex = Array_indexOf headers (CStr ''dollars_raised'');
                        numDonationsIndex = Array_indexOf headers (CStr ''num_of_donations'')
                    in if formNameIndex = - 1 \<or> dollarsRaisedIndex = - 1 \<or> numDonationsIndex = - 1
                       then ([], logError [Str ''Could not find required columns in sheet headers''] w2)
                       else
                         (let w3 = logMessage [Str ''Processing '', Val (Num (real (length values))),
                                               Str '' rows from sheet, filtering for '',
                                               Val (Num (real (length formSlugs))),
                                               Str '' form slugs...''] w2;
                              st = foldl (sheetRowStep e formSlugs (nat formNameIndex)
                                            (nat dollarsRaisedIndex) (nat numDonationsIndex))
                                         ([], 0, 0, w3) (tl values);
                              sheetData = fst st;
                              w4 = snd (snd (snd st))
                          in (sheetData,
                              logMessage [Str ''Found '', Val (Num (real (length sheetData))),
                                          Str '' matching donation records in Google Sheet (from '',
                                          Val (Num (real (length values - 1))),
                                          Str '' total rows)''] w4)))))"

section \<open>updateAirtable\<close>

definition patchRequest :: "update_instruction \<Rightarrow> http_request" where
  "patchRequest record =
     \<lparr>http_method = PATCH,
      url = ''https://api.airtable.com/v0/'' @ AIRTABLE_BASE_ID @ ''/'' @ AIRTABLE_TABLE_ID
              @ ''/'' @ recordId record,
      authorization = ''Bearer '' @ AIRTABLE_API_KEY,
      payload = [(''Raised'', raised record), (''fldoNVriyq6Z0YEE7'', raised record),
                 (''Donations'', donations record), (''fldgEEtQMx96RUqds'', donations record)]\<rparr>"

text \<open>
  The state of \<open>processedData.forEach\<close>: \<open>successCount\<close>, \<open>errorCount\<close> and the world.
  The body is one \<open>try\<close>: a \<open>fetch\<close> that throws lands in its \<open>catch\<close>.
\<close>

type_synonym update_loop = "nat \<times> nat \<times> world"

definition updateRecord :: "env \<Rightarrow> update_loop \<Rightarrow> update_instruction \<Rightarrow> nat \<Rightarrow> update_loop" where
  "updateRecord e st record index =
     (let successCount = fst st;
          errorCount = fst (snd st);
          w = snd (snd st);
          w1 = (if index > 0 then Utilities_sleep 200 w else w);
          r = UrlFetchApp_fetch e (patchRequest record) w1;
          w2 = snd r
      in case fst r of
           Reply responseCode body \<Rightarrow>
             if responseCode = 200
             then (successCount + 1, errorCount,
                   logMessage [Str ''Updated record '', Str (recordId record),
                               Str '' with amount '', Val (raised record), Str '' and '',
                               Val (donations record), Str '' donations''] w2)
             else (successCount, errorCount + 1,
                   logError [Str ''Failed to update record '', Str (recordId record),
                             Str '': Response code '', Val (Num (real_of_int responseCode))] w2)
         | FetchError message \<Rightarrow>
             (successCount, errorCount + 1,
              logError [Str ''Error updating record '', Str (recordId record), Str '': '',
                        Str message] w2))"

fun updateLoop :: "env \<Rightarrow> nat \<Rightarrow> update_loop \<Rightarrow> update_instruction list \<Rightarrow> update_loop" where
  "updateLoop e index st [] = st"
| "updateLoop e index st (record # rest) =
     updateLoop e (Suc index) (updateRecord e st record index) rest"

definition updateAirtable :: "env \<Rightarrow> update_instruction list \<Rightarrow> world \<Rightarrow> world" where
  "updateAirtable e processedData w =
     (let w1 = logMessage [Str ''Updating '', Val (Num (real (length processedData))),
                           Str '' Airtable records...''] w;
          st = updateLoop e 0 (0, 0, w1) processedData
      in logMessage [Str ''Update complete: '', Val (Num (real (fst st))), Str '' successful, '',
                     Val (Num (real (fst (snd st)))), Str '' failed''] (snd (snd st)))"

section \<open>syncData and the two triggers\<close>

definition syncData :: "env \<Rightarrow> world \<Rightarrow> world" where
  "syncData e w =
     (let w1 = logMessage [Str ''Starting sync process...''] w;
          fetched = fetchAirtableRecords e w1;
          airtableRecords = fst fetched
      in if airtableRecords = []
         then logMessage [Str ''No records found in Airtable, sync complete''] (snd fetched)
         else
           (let got = getSheetData e airtableRecords (snd fetched);
                sheetData = fst got
            in if sheetData = []
               then logMessage [Str ''No matching data found in Google Sheet, sync complete''] (snd got)
               else
                 (let processed = processData airtableRecords sheetData (snd got);
                      processedData = fst processed
                  in if processedData = []
                     then logMessage
                            [Str ''No matches found between Airtable and Sheet data, sync complete'']
                            (snd processed)
                     else logMessage [Str ''Sync completed successfully'']
                            (updateAirtable e processedData (snd processed)))))"

text \<open>
  \<open>onEdit(e)\<close>: \<open>activeSheetName\<close> is \<open>e.source.getActiveSheet().getName()\<close>, and
  \<open>now1\<close>, \<open>now2\<close> are the clock readings of the rate-limit check and of the update of
  the stored time.
\<close>

definition onEdit :: "env \<Rightarrow> string \<Rightarrow> int \<Rightarrow> int \<Rightarrow> world \<Rightarrow> world" where
  "onEdit e activeSheetName now1 now2 w =
     (if activeSheetName \<noteq> SHEET_NAME then w
      else
        (let r = shouldRespectRateLimit e now1 w
         in if fst r
            then logMessage [Str ''Edit detected, but skipping auto-sync due to rate limiting'']
                   (snd r)
            else syncData e
                   (logMessage [Str ''Edit detected, running auto-sync'']
                      (updateLastSyncTime e now2 (snd r)))))"

definition manualSyncData :: "env \<Rightarrow> world \<Rightarrow> world" where
  "manualSyncData e w = syncData e (logMessage [Str ''Manual sync triggered by user''] w)"

section \<open>The multi-destination script of the configuration guide\<close>

text \<open>
  The configuration guide prints version 1.1.0 of the script. Its \<open>syncData\<close> runs over
  a list of targets, the API key is a script property, and only the named fields are
  read and written; \<open>getSheetData\<close> and \<open>processData\<close> are the ones above. Its
  functions carry the suffix \<open>_multi\<close> here.
\<close>

record target =
  baseId :: string
  tableId :: string

definition AIRTABLE_TARGETS :: "target list" where
  "AIRTABLE_TARGETS =
     [\<lparr>baseId = ''appGDzLGgrYmcW9R1'', tableId = ''tblTo3zgLYNby9UnL''\<rparr>,
      \<lparr>baseId = [], tableId = []\<rparr>]"

definition AIRTABLE_ACTBLUE_PAGE_FIELD :: string where
  "AIRTABLE_ACTBLUE_PAGE_FIELD = ''ActBlue Page''"

definition AIRTABLE_RAISED_FIELD :: string where
  "AIRTABLE_RAISED_FIELD = ''Raised''"

definition AIRTABLE_DONATIONS_FIELD :: string where
  "AIRTABLE_DONATIONS_FIELD = ''Donations''"

definition AIRTABLE_API_KEY_PROP :: string where
  "AIRTABLE_API_KEY_PROP = ''AIRTABLE_API_KEY''"

definition extractRecord_multi :: "airtable_item \<Rightarrow> remote_record" where
  "extractRecord_multi record =
     (let actBlueUrl = field_or_empty (item_fields record AIRTABLE_ACTBLUE_PAGE_FIELD);
          formSlug =
            (if actBlueUrl \<noteq> []
                \<and> String_indexOf actBlueUrl ''https://secure.actblue.com/donate/'' \<noteq> - 1
             then String_replace actBlueUrl ''https://secure.actblue.com/donate/'' []
             else [])
      in \<lparr>airtableId = item_id record, actBlueUrl = actBlueUrl, formSlug = formSlug\<rparr>)"

definition fetchAirtableRecords_multi ::
  "env \<Rightarrow> target \<Rightarrow> world \<Rightarrow> remote_record list \<times> world" where
  "fetchAirtableRecords_multi e cfg w =
     (let w1 = logMessage [Str ''Fetching records from Airtable (base: '', Str (baseId cfg),
                           Str '', table: '', Str (tableId cfg), Str '')...''] w;
          p = getProperty AIRTABLE_API_KEY_PROP w1;
          apiKey = field_or_empty (fst p);
          w2 = snd p
      in if apiKey = []
         then ([], logError [Str ''Airtable API key not found in script properties''] w2)
         else
           (let req = \<lparr>http_method = GET,
                       url = ''https://api.airtable.com/v0/'' @ baseId cfg @ ''/'' @ tableId cfg,
                       authorization = ''Bearer '' @ apiKey,
                       payload = []\<rparr>;
                r = UrlFetchApp_fetch e req w2;
                w3 = snd r
            in case fst r of
                 FetchError message \<Rightarrow>
                   ([], logError [Str ''Error fetching Airtable records: '', Str message] w3)
               | Reply code None \<Rightarrow>
                   ([], logError [Str ''No records found in Airtable response''] w3)
               | Reply code (Some items) \<Rightarrow>
                   (let records =
                          filter (\<lambda>record. formSlug record \<noteq> []) (map extractRecord_multi items)
                    in (records,
                        logMessage [Str ''Found '', Val (Num (real (length records))),
                                    Str '' valid ActBlue form slugs in Airtable''] w3))))"

definition patchRequest_multi :: "target \<Rightarrow> string \<Rightarrow> update_instruction \<Rightarrow> http_request" where
  "patchRequest_multi cfg apiKey record =
     \<lparr>http_method = PATCH,
      url = ''https://api.airtable.com/v0/'' @ baseId cfg @ ''/'' @ tableId cfg
              @ ''/'' @ recordId record,
      authorization = ''Bearer '' @ apiKey,
      payload = [(AIRTABLE_RAISED_FIELD, raised record),
                 (AIRTABLE_DONATIONS_FIELD, donations record)]\<rparr>"

definition updateRecord_multi ::
  "env \<Rightarrow> target \<Rightarrow> string \<Rightarrow> update_loop \<Rightarrow> update_instruction \<Rightarrow> nat \<Rightarrow> update_loop" where
  "updateRecord_multi e cfg apiKey st record index =
     (let successCount = fst st;
          errorCount = fst (snd st);
          w = snd (snd st);
          w1 = (if index > 0 then Utilities_sleep 200 w else w);
          r = UrlFetchApp_fetch e (patchRequest_multi cfg apiKey record) w1;
          w2 = snd r
      in case fst r of
           Reply responseCode body \<Rightarrow>
             if responseCode = 200
             then (successCount + 1, errorCount,
                   logMessage [Str ''Updated record '', Str (recordId record),
                               Str '' with amount '', Val (raised record), Str '' and '',
                               Val (donations record), Str '' donations''] w2)
             else (successCount, errorCount + 1,
                   logError [Str ''Failed to update record '', Str (recordId record),
                             Str '': Response code '', Val (Num (real_of_int responseCode))] w2)
         | FetchError message \<Rightarrow>
             (successCount, errorCount + 1,
              logError [Str ''Error updating record '', Str (recordId record), Str '': '',
                        Str message] w2))"

fun updateLoop_multi ::
  "env \<Rightarrow> target \<Rightarrow> string \<Rightarrow> nat \<Rightarrow> update_loop \<Rightarrow> update_instruction list \<Rightarrow> update_loop" where
  "updateLoop_multi e cfg apiKey index st [] = st"
| "updateLoop_multi e cfg apiKey index st (record # rest) =
     updateLoop_multi e cfg apiKey (Suc index) (updateRecord_multi e cfg apiKey st record index) rest"

definition updateAirtable_multi :: "env \<Rightarrow> target \<Rightarrow> update_instruction list \<Rightarrow> world \<Rightarrow> world" where
  "updateAirtable_multi e cfg processedData w =
     (let w1 = logMessage [Str ''Updating '', Val (Num (real (length processedData))),
                           Str '' Airtable records in base '', Str (baseId cfg), Str ''...''] w;
          p = getProperty AIRTABLE_API_KEY_PROP w1;
          apiKey = field_or_empty (fst p);
          w2 = snd p
      in if apiKey = []
         then logError [Str ''Airtable API key not found in script properties''] w2
         else
           (let st = updateLoop_multi e cfg apiKey 0 (0, 0, w2) processedData
            in logMessage [Str ''Update complete: '', Val (Num (real (fst st))),
                           Str '' successful, '', Val (Num (real (fst (snd st)))),
                           Str '' failed''] (snd (snd st))))"

text \<open>The body of \<open>AIRTABLE_TARGETS.forEach\<close>; a \<open>return\<close> in it goes on to the next target.\<close>

definition syncTarget :: "env \<Rightarrow> world \<Rightarrow> target \<Rightarrow> world" where
  "syncTarget e w cfg =
     (if baseId cfg = [] \<or> tableId cfg = []
      then logMessage [Str ''Skipping target with blank Base/Table IDs''] w
      else
        (let fetched = fetchAirtableRecords_multi e cfg w;
             airtableRecords = fst fetched
         in if airtableRecords = []
            then logMessage [Str ''No records found in Airtable for base '', Str (baseId cfg),
                             Str '', skipping''] (snd fetched)
            else
              (let got = getSheetData e airtableRecords (snd fetched);
                   sheetData = fst got
               in if sheetData = []
                  then logMessage
                         [Str ''No matching data found in Google Sheet for this target, skipping'']
                         (snd got)
                  else
                    (let processed = processData airtableRecords sheetData (snd got);
                         processedData = fst processed
                     in if processedData = []
                        then logMessage
                               [Str ''No matches found between Airtable and Sheet data for this target, skipping'']
                               (snd processed)
                        else updateAirtable_multi e cfg processedData (snd processed)))))"

text \<open>\<open>syncData\<close> of that script, for a list of targets; the script runs it on \<open>AIRTABLE_TARGETS\<close>.\<close>

definition syncTargets :: "env \<Rightarrow> target list \<Rightarrow> world \<Rightarrow> world" where
  "syncTargets e targets w =
     logMessage [Str ''Sync completed for all configured targets'']
       (foldl (syncTarget e) (logMessage [Str ''Starting multi-destination sync process...''] w)
          targets)"

definition syncData_multi :: "env \<Rightarrow> world \<Rightarrow> world" where
  "syncData_multi e w = syncTargets e AIRTABLE_TARGETS w"

section \<open>The specification's words\<close>

text \<open>
  The row test and the row built by the tabular data reader, as the specification words
  them: the \<open>form_name\<close> cell is a non-empty string among the candidate keys, and at
  least one of the two coerced measures is positive. \<open>fi\<close>, \<open>di\<close> and \<open>ni\<close> are the
  columns of \<open>form_name\<close>, \<open>dollars_raised\<close> and \<open>num_of_donations\<close>.
\<close>

definition spec_retained :: "env \<Rightarrow> string list \<Rightarrow> nat \<Rightarrow> nat \<Rightarrow> nat \<Rightarrow> cell list \<Rightarrow> bool" where
  "spec_retained e candidateKeys fi di ni row =
     ((case cellAt row fi of CStr s \<Rightarrow> s \<noteq> [] \<and> s \<in> set candidateKeys | _ \<Rightarrow> False)
      \<and> (parseFloat_or_0 e (cellAt row di) > 0 \<or> parseInt_or_0 e (cellAt row ni) > 0))"

definition spec_sheetRow :: "env \<Rightarrow> nat \<Rightarrow> nat \<Rightarrow> nat \<Rightarrow> cell list \<Rightarrow> sheet_row" where
  "spec_sheetRow e fi di ni row =
     \<lparr>formName = cellString (cellAt row fi),
      dollarsRaised = parseFloat_or_0 e (cellAt row di),
      numDonations = parseInt_or_0 e (cellAt row ni)\<rparr>"

text \<open>
  The number of update instructions the server answers with status 200, when they are
  sent one after the other starting from the request history \<open>trace\<close>.
\<close>

fun isSuccess :: "http_reply \<Rightarrow> bool" where
  "isSuccess (Reply code body) = (code = 200)"
| "isSuccess (FetchError message) = False"

fun successes :: "env \<Rightarrow> http_request list \<Rightarrow> update_instruction list \<Rightarrow> nat" where
  "successes e trace [] = 0"
| "successes e trace (r # rs) =
     (if isSuccess (server e trace (patchRequest r)) then 1 else 0)
       + successes e (trace @ [patchRequest r]) rs"

section \<open>Concrete inputs\<close>

text \<open>
  Three records of an Airtable response: one whose URL is the prefix followed by a
  slug, one whose URL is the prefix alone, and one whose URL lies elsewhere.
\<close>

definition item_alpha :: airtable_item where
  "item_alpha = \<lparr>item_id = ''rec1'',
     item_fields = [''ActBlue Page'' \<mapsto> ''https://secure.actblue.com/donate/alpha'']\<rparr>"

definition item_bare :: airtable_item where
  "item_bare = \<lparr>item_id = ''rec2'',
     item_fields = [''ActBlue Page'' \<mapsto> ''https://secure.actblue.com/donate/'']\<rparr>"

definition item_other :: airtable_item where
  "item_other = \<lparr>item_id = ''rec3'',
     item_fields = [''fldxiPzVeVCUXsnq1'' \<mapsto> ''https://example.org/beta'']\<rparr>"

text \<open>
  Two rows of one form whose amounts are zero and whose counts are not (a row is kept
  by \<open>getSheetData\<close> when either is positive), and a run in which one Airtable record
  has the slug \<open>constructor\<close> and no row of the sheet has that form name.
\<close>

definition rows_zero_amount :: "sheet_row list" where
  "rows_zero_amount =
     [\<lparr>formName = ''a'', dollarsRaised = 0, numDonations = 2\<rparr>,
      \<lparr>formName = ''a'', dollarsRaised = 0, numDonations = 3\<rparr>]"

definition record_a :: remote_record where
  "record_a = \<lparr>airtableId = ''rec1'',
     actBlueUrl = ''https://secure.actblue.com/donate/a'', formSlug = ''a''\<rparr>"

definition record_constructor :: remote_record where
  "record_constructor = \<lparr>airtableId = ''rec2'',
     actBlueUrl = ''https://secure.actblue.com/donate/constructor'', formSlug = ''constructor''\<rparr>"

definition rows_one :: "sheet_row list" where
  "rows_one = [\<lparr>formName = ''a'', dollarsRaised = 1, numDonations = 1\<rparr>]"

text \<open>
  An environment to run the script in. The built-ins are given on the inputs used
  below only: number cells parse to themselves, other cells to \<open>NaN\<close>, and one
  timestamp is known. The server answers the first request, when it is a read, with
  three records, and a later read with three records of which the one without a slug
  is another; it answers the update that follows the first request with status 200,
  the next with status 422, and it throws on every later update. The sheet has its columns in
  another order than the script names them, two rows of form \<open>alpha\<close>, a row of
  \<open>beta\<close> with both measures zero, a row of a form no record has, and a row of \<open>beta\<close>
  whose count does not parse.
\<close>

definition demo_Date_parse :: "string \<Rightarrow> int option" where
  "demo_Date_parse s = (if s = ''2024-01-01T00:00:00.000Z'' then Some 1704067200000 else None)"

definition demo_toISOString :: "int \<Rightarrow> string" where
  "demo_toISOString t =
     (if t = 1704067200000 then ''2024-01-01T00:00:00.000Z'' else ''2024-01-01T01:00:00.000Z'')"

definition demo_parseFloat :: "cell \<Rightarrow> real option" where
  "demo_parseFloat c = (case c of CNum x \<Rightarrow> Some x | _ \<Rightarrow> None)"

definition demo_parseInt :: "cell \<Rightarrow> int option" where
  "demo_parseInt c = (case c of CNum x \<Rightarrow> Some \<lfloor>x\<rfloor> | _ \<Rightarrow> None)"

definition world0 :: world where
  "world0 = \<lparr>logs = [], httpTrace = [], props = Map.empty, propAccess = [], sleptMs = 0\<rparr>"

definition world_stamped :: world where
  "world_stamped = world0\<lparr>props := [RATE_LIMIT_PROP_KEY \<mapsto> ''2024-01-01T00:00:00.000Z'']\<rparr>"

definition world_corrupt :: world where
  "world_corrupt = world0\<lparr>props := [RATE_LIMIT_PROP_KEY \<mapsto> ''yesterday'']\<rparr>"

definition item_beta :: airtable_item where
  "item_beta = \<lparr>item_id = ''rec4'',
     item_fields = [''fldxiPzVeVCUXsnq1'' \<mapsto> ''https://secure.actblue.com/donate/beta'']\<rparr>"

definition demo_items :: "airtable_item list" where
  "demo_items = [item_alpha, item_bare, item_beta]"

definition demo_grid :: "cell list list" where
  "demo_grid =
     [ [CStr ''date'', CStr ''num_of_donations'', CStr ''form_name'', CStr ''dollars_raised''],
      [CDate 1704067200000, CNum 2, CStr ''alpha'', CNum 10.5],
      [CDate 1704067200000, CNum 1, CStr ''alpha'', CNum 4.5],
      [CDate 1704067200000, CNum 0, CStr ''beta'', CNum 0],
      [CDate 1704067200000, CNum 5, CStr ''gamma'', CNum 100],
      [CDate 1704067200000, CStr ''n/a'', CStr ''beta'', CNum 7]]"

definition demo_items_later :: "airtable_item list" where
  "demo_items_later = [item_alpha, item_other, item_beta]"

definition demo_server :: "http_request list \<Rightarrow> http_request \<Rightarrow> http_reply" where
  "demo_server trace req =
     (if http_method req = GET
      then Reply 200 (Some (if trace = [] then demo_items else demo_items_later))
      else if length trace \<le> 1 then Reply 200 None
      else if length trace = 2 then Reply 422 None
      else FetchError ''Timeout'')"

definition demo_env :: env where
  "demo_env =
     \<lparr>server = demo_server,
      getSheetByName = (\<lambda>name. if name = ''raw_import'' then Some demo_grid else None),
      parseFloat = demo_parseFloat,
      parseInt = demo_parseInt,
      Date_parse = demo_Date_parse,
      toISOString = demo_toISOString\<rparr>"

definition demo_records :: "remote_record list" where
  "demo_records =
     [\<lparr>airtableId = ''rec1'', actBlueUrl = ''https://secure.actblue.com/donate/alpha'',
       formSlug = ''alpha''\<rparr>,
      \<lparr>airtableId = ''rec4'', actBlueUrl = ''https://secure.actblue.com/donate/beta'',
       formSlug = ''beta''\<rparr>]"

text \<open>Three update instructions, to send to that server after one read.\<close>

definition demo_instructions :: "update_instruction list" where
  "demo_instructions =
     [\<lparr>recordId = ''rec1'', raised = Num 15, donations = Num 3\<rparr>,
      \<lparr>recordId = ''rec4'', raised = Num 7, donations = Num 0\<rparr>,
      \<lparr>recordId = ''rec5'', raised = Num 1, donations = Num 1\<rparr>]"

text \<open>
  A second environment: Airtable holds one record, of slug \<open>a\<close>, and the sheet has two
  rows of form \<open>a\<close> with amount 0 and counts 2 and 3. A further record has the slug
  \<open>constructor\<close>.
\<close>

definition item_a :: airtable_item where
  "item_a = \<lparr>item_id = ''rec1'',
     item_fields = [''ActBlue Page'' \<mapsto> ''https://secure.actblue.com/donate/a'']\<rparr>"

definition item_constructor :: airtable_item where
  "item_constructor = \<lparr>item_id = ''rec2'',
     item_fields = [''ActBlue Page'' \<mapsto> ''https://secure.actblue.com/donate/constructor'']\<rparr>"

definition zero_grid :: "cell list list" where
  "zero_grid =
     [ [CStr ''form_name'', CStr ''dollars_raised'', CStr ''num_of_donations''],
      [CStr ''a'', CNum 0, CNum 2],
      [CStr ''a'', CNum 0, CNum 3]]"

definition zero_env :: env where
  "zero_env =
     \<lparr>server = (\<lambda>trace req. Reply 200 (if http_method req = GET then Some [item_a] else None)),
      getSheetByName = (\<lambda>name. if name = ''raw_import'' then Some zero_grid else None),
      parseFloat = demo_parseFloat,
      parseInt = demo_parseInt,
      Date_parse = demo_Date_parse,
      toISOString = demo_toISOString\<rparr>"

section \<open>The world: what logging and the services change\<close>

lemma logMessage_simps [simp]:
  "logs (logMessage m w) = logs w @ [(INFO, m)]"
  "httpTrace (logMessage m w) = httpTrace w"
  "props (logMessage m w) = props w"
  "propAccess (logMessage m w) = propAccess w"
  "sleptMs (logMessage m w) = sleptMs w"
  by (simp_all add: logMessage_def)

lemma logError_simps [simp]:
  "logs (logError m w) = logs w @ [(ERROR, m)]"
  "httpTrace (logError m w) = httpTrace w"
  "props (logError m w) = props w"
  "propAccess (logError m w) = propAccess w"
  "sleptMs (logError m w) = sleptMs w"
  by (simp_all add: logError_def)

lemma getProperty_simps [simp]:
  "fst (getProperty key w) = props w key"
  "logs (snd (getProperty key w)) = logs w"
  "httpTrace (snd (getProperty key w)) = httpTrace w"
  "props (snd (getProperty key w)) = props w"
  "propAccess (snd (getProperty key w)) = propAccess w @ [GetProperty key]"
  "sleptMs (snd (getProperty key w)) = sleptMs w"
  by (simp_all add: getProperty_def)

lemma UrlFetchApp_fetch_simps [simp]:
  "fst (UrlFetchApp_fetch e req w) = server e (httpTrace w) req"
  "logs (snd (UrlFetchApp_fetch e req w)) = logs w"
  "httpTrace (snd (UrlFetchApp_fetch e req w)) = httpTrace w @ [req]"
  "props (snd (UrlFetchApp_fetch e req w)) = props w"
  "propAccess (snd (UrlFetchApp_fetch e req w)) = propAccess w"
  "sleptMs (snd (UrlFetchApp_fetch e req w)) = sleptMs w"
  by (simp_all add: UrlFetchApp_fetch_def)

lemma Utilities_sleep_simps [simp]:
  "logs (Utilities_sleep ms w) = logs w"
  "httpTrace (Utilities_sleep ms w) = httpTrace w"
  "props (Utilities_sleep ms w) = props w"
  "propAccess (Utilities_sleep ms w) = propAccess w"
  "sleptMs (Utilities_sleep ms w) = sleptMs w + ms"
  by (simp_all add: Utilities_sleep_def)

lemma setProperty_simps [simp]:
  "logs (setProperty key v w) = logs w"
  "httpTrace (setProperty key v w) = httpTrace w"
  "props (setProperty key v w) = (props w)(key \<mapsto> v)"
  "propAccess (setProperty key v w) = propAccess w @ [SetProperty key v]"
  "sleptMs (setProperty key v w) = sleptMs w"
  by (simp_all add: setProperty_def)

section \<open>Strings: finding and replacing the leftmost occurrence\<close>

lemma String_indexOf_ge: "- 1 \<le> String_indexOf s p"
  by (induction s) (auto simp: Let_def)

lemma String_indexOf_found: "String_indexOf s p \<noteq> - 1 \<longleftrightarrow> (\<exists>a b. s = a @ p @ b)"
proof (induction s)
  case Nil
  then show ?case by auto
next
  case (Cons c cs)
  have split: "(\<exists>a b. c # cs = a @ p @ b) \<longleftrightarrow> prefix p (c # cs) \<or> (\<exists>a b. cs = a @ p @ b)"
  proof
    assume "\<exists>a b. c # cs = a @ p @ b"
    then obtain a b where ab: "c # cs = a @ p @ b" by blast
    show "prefix p (c # cs) \<or> (\<exists>a b. cs = a @ p @ b)"
    proof (cases a)
      case Nil
      with ab show ?thesis by (auto simp: prefix_def)
    next
      case (Cons x xs)
      with ab have "cs = xs @ p @ b" by simp
      then show ?thesis by blast
    qed
  next
    assume "prefix p (c # cs) \<or> (\<exists>a b. cs = a @ p @ b)"
    then show "\<exists>a b. c # cs = a @ p @ b"
    proof
      assume "prefix p (c # cs)"
      then obtain b where "c # cs = p @ b" by (auto simp: prefix_def)
      then have "c # cs = [] @ p @ b" by simp
      then show ?thesis by blast
    next
      assume "\<exists>a b. cs = a @ p @ b"
      then obtain a b where "cs = a @ p @ b" by blast
      then have "c # cs = (c # a) @ p @ b" by simp
      then show ?thesis by blast
    qed
  qed
  have ge: "- 1 \<le> String_indexOf cs p" by (rule String_indexOf_ge)
  show ?case
  proof (cases "prefix p (c # cs)")
    case True
    then show ?thesis using split by simp
  next
    case False
    have "String_indexOf (c # cs) p \<noteq> - 1 \<longleftrightarrow> String_indexOf cs p \<noteq> - 1"
      using False ge by (auto simp: Let_def)
    then show ?thesis using Cons.IH split False by simp
  qed
qed

lemma String_replace_prefix: "prefix p s \<Longrightarrow> String_replace s p r = r @ drop (length p) s"
  by (cases s) auto

lemma String_replace_leftmost:
  "s = a @ p @ b \<Longrightarrow> \<forall>a' b'. s = a' @ p @ b' \<longrightarrow> length a \<le> length a'
     \<Longrightarrow> String_replace s p r = a @ r @ b"
proof (induction a arbitrary: s)
  case Nil
  then have "prefix p s" by (simp add: prefix_def)
  then show ?case using Nil by (simp add: String_replace_prefix)
next
  case (Cons x xs)
  let ?t = "xs @ p @ b"
  have s: "s = x # ?t" using Cons.prems(1) by simp
  have notp: "\<not> prefix p s"
  proof
    assume "prefix p s"
    then obtain b' where "s = [] @ p @ b'" by (auto simp: prefix_def)
    then have "length (x # xs) \<le> length ([]::string)" using Cons.prems(2) by blast
    then show False by simp
  qed
  have left: "\<forall>a' b'. ?t = a' @ p @ b' \<longrightarrow> length xs \<le> length a'"
  proof (intro allI impI)
    fix a' b' assume "?t = a' @ p @ b'"
    then have "s = (x # a') @ p @ b'" using s by simp
    then have "length (x # xs) \<le> length (x # a')" using Cons.prems(2) by blast
    then show "length xs \<le> length a'" by simp
  qed
  have "String_replace ?t p r = xs @ r @ b" using Cons.IH[OF refl left] .
  then show ?case using s notp by simp
qed

lemma String_replace_found:
  assumes "String_indexOf s p \<noteq> - 1"
  shows "\<exists>a b. s = a @ p @ b \<and> String_replace s p r = a @ r @ b
           \<and> (\<forall>a' b'. s = a' @ p @ b' \<longrightarrow> length a \<le> length a')"
proof -
  let ?P = "\<lambda>n. \<exists>a b. s = a @ p @ b \<and> length a = n"
  from assms have "\<exists>n. ?P n" by (auto simp: String_indexOf_found)
  then have least: "?P (LEAST n. ?P n)" by (rule LeastI_ex)
  then obtain a b where ab: "s = a @ p @ b" "length a = (LEAST n. ?P n)" by blast
  have left: "\<forall>a' b'. s = a' @ p @ b' \<longrightarrow> length a \<le> length a'"
  proof (intro allI impI)
    fix a' b' assume "s = a' @ p @ b'"
    then have "?P (length a')" by blast
    then have "(LEAST n. ?P n) \<le> length a'" by (rule Least_le)
    then show "length a \<le> length a'" using ab(2) by simp
  qed
  have "String_replace s p r = a @ r @ b" using String_replace_leftmost[OF ab(1) left] .
  then show ?thesis using ab(1) left by blast
qed

section \<open>Aggregation and join\<close>

text \<open>
  What the aggregation does for a form name that is not the name of a property of
  \<open>Object.prototype\<close>: the amount kept is the sum of the amounts of its rows, whatever
  they are; the count kept is the sum of the counts when every amount of the form is
  positive, so that the running amount is never 0 again.
\<close>

lemma aggregate_snoc: "aggregate (rows @ [r]) = aggregateItem (aggregate rows) r"
  by (simp add: aggregate_def)

lemma plain_not_proto: "k \<notin> set Object_prototype_names \<Longrightarrow> k \<noteq> ''__proto__''"
  by (auto simp: Object_prototype_names_def)

lemma filter_absent: "k \<notin> formName ` set rows \<Longrightarrow> filter (\<lambda>r. formName r = k) rows = []"
  by (auto simp: filter_empty_conv)

lemma sum_list_positive: "xs \<noteq> [] \<Longrightarrow> \<forall>x \<in> set xs. 0 < x \<Longrightarrow> 0 < sum_list (xs :: real list)"
proof (induction xs)
  case Nil
  then show ?case by simp
next
  case (Cons x xs)
  show ?case
  proof (cases "xs = []")
    case True
    with Cons.prems show ?thesis by simp
  next
    case False
    with Cons have "0 < sum_list xs" by simp
    moreover have "0 < x" using Cons.prems by simp
    ultimately show ?thesis by simp
  qed
qed

lemma aggregate_amounts:
  assumes "k \<notin> set Object_prototype_names"
  shows "fst (aggregate rows) k =
           (if k \<in> formName ` set rows
            then Some (Num (sum_list (map dollarsRaised (filter (\<lambda>r. formName r = k) rows))))
            else None)"
proof (induction rows rule: rev_induct)
  case Nil
  then show ?case by (simp add: aggregate_def)
next
  case (snoc r rows)
  have np: "k \<noteq> ''__proto__''" using assms by (rule plain_not_proto)
  show ?case
  proof (cases "formName r = k")
    case True
    then show ?thesis
      using snoc.IH assms np filter_absent[of k rows]
      by (auto simp: aggregate_snoc aggregateItem_def Let_def js_get_def js_set_def)
  next
    case False
    then show ?thesis
      using snoc.IH
      by (auto simp: aggregate_snoc aggregateItem_def Let_def js_set_def)
  qed
qed

lemma aggregate_counts:
  assumes "k \<notin> set Object_prototype_names"
      and "\<forall>r \<in> set rows. formName r = k \<longrightarrow> 0 < dollarsRaised r"
  shows "snd (aggregate rows) k =
           (if k \<in> formName ` set rows
            then Some (Num (sum_list (map numDonations (filter (\<lambda>r. formName r = k) rows))))
            else None)"
  using assms(2)
proof (induction rows rule: rev_induct)
  case Nil
  then show ?case by (simp add: aggregate_def)
next
  case (snoc r rows)
  have np: "k \<noteq> ''__proto__''" using assms(1) by (rule plain_not_proto)
  have IH: "snd (aggregate rows) k =
           (if k \<in> formName ` set rows
            then Some (Num (sum_list (map numDonations (filter (\<lambda>r. formName r = k) rows))))
            else None)"
    using snoc by simp
  have am: "fst (aggregate rows) k =
           (if k \<in> formName ` set rows
            then Some (Num (sum_list (map dollarsRaised (filter (\<lambda>r. formName r = k) rows))))
            else None)"
    using assms(1) by (rule aggregate_amounts)
  have pos: "k \<in> formName ` set rows
       \<Longrightarrow> 0 < sum_list (map dollarsRaised (filter (\<lambda>r. formName r = k) rows))"
  proof -
    assume "k \<in> formName ` set rows"
    then have ne: "filter (\<lambda>r. formName r = k) rows \<noteq> []"
      by (auto simp: filter_empty_conv)
    have "\<forall>x \<in> set (map dollarsRaised (filter (\<lambda>r. formName r = k) rows)). 0 < x"
      using snoc.prems by auto
    then show ?thesis using ne
      by (intro sum_list_positive) auto
  qed
  show ?case
  proof (cases "formName r = k")
    case True
    then show ?thesis
      using IH am pos assms(1) np filter_absent[of k rows]
      by (auto simp: aggregate_snoc aggregateItem_def Let_def js_get_def js_set_def)
  next
    case False
    then show ?thesis
      using IH
      by (auto simp: aggregate_snoc aggregateItem_def Let_def js_set_def)
  qed
qed

text \<open>
  For such a slug the join is as expected: an entry is pushed exactly when the slug is
  a key of the aggregate, which is when some row has it as form name, and the entry
  carries the two values kept under that key.
\<close>

lemma aggregate_counts_shape:
  assumes "k \<notin> set Object_prototype_names"
  shows "(k \<notin> formName ` set rows \<and> snd (aggregate rows) k = None)
         \<or> (k \<in> formName ` set rows \<and> (\<exists>c. snd (aggregate rows) k = Some (Num c)))"
proof (induction rows rule: rev_induct)
  case Nil
  then show ?case by (simp add: aggregate_def)
next
  case (snoc r rows)
  have np: "k \<noteq> ''__proto__''" using assms by (rule plain_not_proto)
  show ?case
  proof (cases "formName r = k")
    case True
    then show ?thesis
      using snoc.IH assms np aggregate_amounts[OF assms, of rows]
      by (auto simp: aggregate_snoc aggregateItem_def Let_def js_get_def js_set_def)
  next
    case False
    then show ?thesis
      using snoc.IH
      by (auto simp: aggregate_snoc aggregateItem_def Let_def js_set_def)
  qed
qed

lemma aggregate_keys:
  assumes "k \<notin> set Object_prototype_names"
  shows "(k \<in> dom (fst (aggregate rows))) = (k \<in> formName ` set rows)
         \<and> (k \<in> dom (snd (aggregate rows))) = (k \<in> formName ` set rows)"
  using aggregate_amounts[OF assms, of rows] aggregate_counts_shape[OF assms, of rows]
  by (auto simp: dom_def)

lemma js_or_Num: "js_or (Num x) (Num 0) = Num x"
  by (simp add: js_or_def)

lemma matchRecord_plain:
  assumes "formSlug r \<notin> set Object_prototype_names"
  shows "matchRecord (aggregate rows) r =
           (if formSlug r \<in> dom (fst (aggregate rows))
            then [\<lparr>recordId = airtableId r,
                   raised = js_get (fst (aggregate rows)) (formSlug r),
                   donations = js_get (snd (aggregate rows)) (formSlug r)\<rparr>]
            else [])"
  using aggregate_amounts[OF assms, of rows] aggregate_counts_shape[OF assms, of rows] assms
  by (auto simp: matchRecord_def Let_def js_get_def js_or_Num dom_def)

lemma processData_plain:
  assumes "\<forall>r \<in> set airtableRecords. formSlug r \<notin> set Object_prototype_names"
  shows "fst (processData airtableRecords sheetData w) =
           map (\<lambda>r. \<lparr>recordId = airtableId r,
                      raised = js_get (fst (aggregate sheetData)) (formSlug r),
                      donations = js_get (snd (aggregate sheetData)) (formSlug r)\<rparr>)
             (filter (\<lambda>r. formSlug r \<in> dom (fst (aggregate sheetData))) airtableRecords)"
  using assms
proof (induction airtableRecords)
  case Nil
  then show ?case by (simp add: processData_def)
next
  case (Cons r rs)
  then have "fst (processData rs sheetData w) =
           map (\<lambda>r. \<lparr>recordId = airtableId r,
                      raised = js_get (fst (aggregate sheetData)) (formSlug r),
                      donations = js_get (snd (aggregate sheetData)) (formSlug r)\<rparr>)
             (filter (\<lambda>r. formSlug r \<in> dom (fst (aggregate sheetData))) rs)"
    by simp
  moreover have "formSlug r \<notin> set Object_prototype_names" using Cons.prems by simp
  ultimately show ?case
    by (simp add: processData_def Let_def matchRecord_plain)
qed

section \<open>Records fetched from Airtable\<close>

lemma extractRecord_slug:
  "formSlug (extractRecord item) =
     (if String_indexOf (actBlueUrl (extractRecord item)) ACTBLUE_URL_PREFIX \<noteq> - 1
      then String_replace (actBlueUrl (extractRecord item)) ACTBLUE_URL_PREFIX []
      else [])"
  by (auto simp: extractRecord_def Let_def ACTBLUE_URL_PREFIX_def)

lemma validRecords_remainder:
  assumes "rcd \<in> set (validRecords items)"
      and "prefix ACTBLUE_URL_PREFIX (actBlueUrl rcd)"
  shows "formSlug rcd = drop (length ACTBLUE_URL_PREFIX) (actBlueUrl rcd)"
proof -
  from assms(1) obtain item where r: "rcd = extractRecord item" and ne: "formSlug rcd \<noteq> []"
    by (auto simp: validRecords_def)
  from ne r have "formSlug rcd = String_replace (actBlueUrl rcd) ACTBLUE_URL_PREFIX []"
    using extractRecord_slug[of item] by (auto split: if_splits)
  then show ?thesis
    using String_replace_prefix[OF assms(2), of "[]"] by simp
qed

text \<open>
  C3, as the code has it. The claim: a record is produced if and only if its URL field
  is non-empty and contains the prefix. The code also drops a record whose slug comes
  out empty, so: the records produced are those of the items whose URL is non-empty,
  contains the prefix, and is not empty once the leftmost occurrence of the prefix is
  removed. Every record produced has a non-empty slug, and the slug is the URL with the
  leftmost occurrence of the prefix cut out; for a URL that starts with the prefix it is
  what follows the prefix.
\<close>

theorem validRecords_produced:
  "validRecords items =
     map extractRecord
       (filter (\<lambda>item. actBlueUrl (extractRecord item) \<noteq> []
                  \<and> (\<exists>a b. actBlueUrl (extractRecord item) = a @ ACTBLUE_URL_PREFIX @ b)
                  \<and> String_replace (actBlueUrl (extractRecord item)) ACTBLUE_URL_PREFIX [] \<noteq> [])
          items)
   \<and> (\<forall>record \<in> set (validRecords items).
        formSlug record \<noteq> []
        \<and> (\<exists>a b. actBlueUrl record = a @ ACTBLUE_URL_PREFIX @ b \<and> formSlug record = a @ b
              \<and> (\<forall>a' b'. actBlueUrl record = a' @ ACTBLUE_URL_PREFIX @ b' \<longrightarrow> length a \<le> length a')))
   \<and> (\<forall>record \<in> set (validRecords items).
        prefix ACTBLUE_URL_PREFIX (actBlueUrl record) \<longrightarrow>
        formSlug record = drop (length ACTBLUE_URL_PREFIX) (actBlueUrl record))"
proof (intro conjI)
  have keep: "formSlug (extractRecord item) \<noteq> [] \<longleftrightarrow>
       actBlueUrl (extractRecord item) \<noteq> []
       \<and> (\<exists>a b. actBlueUrl (extractRecord item) = a @ ACTBLUE_URL_PREFIX @ b)
       \<and> String_replace (actBlueUrl (extractRecord item)) ACTBLUE_URL_PREFIX [] \<noteq> []" for item
  proof -
    have "(\<exists>a b. actBlueUrl (extractRecord item) = a @ ACTBLUE_URL_PREFIX @ b)
            \<Longrightarrow> actBlueUrl (extractRecord item) \<noteq> []"
      by (auto simp: ACTBLUE_URL_PREFIX_def)
    then show ?thesis
      by (auto simp: extractRecord_slug String_indexOf_found)
  qed
  show "validRecords items =
     map extractRecord
       (filter (\<lambda>item. actBlueUrl (extractRecord item) \<noteq> []
                  \<and> (\<exists>a b. actBlueUrl (extractRecord item) = a @ ACTBLUE_URL_PREFIX @ b)
                  \<and> String_replace (actBlueUrl (extractRecord item)) ACTBLUE_URL_PREFIX [] \<noteq> [])
          items)"
    by (simp add: validRecords_def filter_map o_def keep)
  show "\<forall>record \<in> set (validRecords items).
        formSlug record \<noteq> []
        \<and> (\<exists>a b. actBlueUrl record = a @ ACTBLUE_URL_PREFIX @ b \<and> formSlug record = a @ b
              \<and> (\<forall>a' b'. actBlueUrl record = a' @ ACTBLUE_URL_PREFIX @ b' \<longrightarrow> length a \<le> length a'))"
  proof
    fix rcd :: remote_record assume "rcd \<in> set (validRecords items)"
    then obtain item where r: "rcd = extractRecord item" and ne: "formSlug rcd \<noteq> []"
      by (auto simp: validRecords_def)
    from ne r have found: "String_indexOf (actBlueUrl rcd) ACTBLUE_URL_PREFIX \<noteq> - 1"
      and slug: "formSlug rcd = String_replace (actBlueUrl rcd) ACTBLUE_URL_PREFIX []"
      using extractRecord_slug[of item] by (auto split: if_splits)
    from String_replace_found[OF found, of "[]"] slug ne
    show "formSlug rcd \<noteq> []
        \<and> (\<exists>a b. actBlueUrl rcd = a @ ACTBLUE_URL_PREFIX @ b \<and> formSlug rcd = a @ b
              \<and> (\<forall>a' b'. actBlueUrl rcd = a' @ ACTBLUE_URL_PREFIX @ b' \<longrightarrow> length a \<le> length a'))"
      by auto
  qed
  show "\<forall>record \<in> set (validRecords items).
        prefix ACTBLUE_URL_PREFIX (actBlueUrl record) \<longrightarrow>
        formSlug record = drop (length ACTBLUE_URL_PREFIX) (actBlueUrl record)"
    using validRecords_remainder by blast
qed

theorem validRecords_produced_witness:
  "validRecords [item_alpha, item_bare, item_other] =
      [\<lparr>airtableId = ''rec1'', actBlueUrl = ''https://secure.actblue.com/donate/alpha'',
        formSlug = ''alpha''\<rparr>]"
proof -
  let ?P = "\<lambda>item. actBlueUrl (extractRecord item) \<noteq> []
                  \<and> (\<exists>a b. actBlueUrl (extractRecord item) = a @ ACTBLUE_URL_PREFIX @ b)
                  \<and> String_replace (actBlueUrl (extractRecord item)) ACTBLUE_URL_PREFIX [] \<noteq> []"
  have a: "extractRecord item_alpha = \<lparr>airtableId = ''rec1'',
         actBlueUrl = ''https://secure.actblue.com/donate/alpha'', formSlug = ''alpha''\<rparr>"
    by (simp add: extractRecord_def item_alpha_def field_or_def field_or_empty_def
          ACTBLUE_URL_PREFIX_def Let_def)
  have ua: "actBlueUrl (extractRecord item_alpha) = ''https://secure.actblue.com/donate/alpha''"
    by (simp add: a)
  have ub: "actBlueUrl (extractRecord item_bare) = ''https://secure.actblue.com/donate/''"
    by (simp add: extractRecord_def item_bare_def field_or_def field_or_empty_def Let_def)
  have uc: "actBlueUrl (extractRecord item_other) = ''https://example.org/beta''"
    by (simp add: extractRecord_def item_other_def field_or_def field_or_empty_def Let_def)
  have "String_indexOf ''https://secure.actblue.com/donate/alpha'' ACTBLUE_URL_PREFIX \<noteq> - 1"
    by (simp add: ACTBLUE_URL_PREFIX_def)
  then have ca: "\<exists>a b. ''https://secure.actblue.com/donate/alpha'' = a @ ACTBLUE_URL_PREFIX @ b"
    by (simp only: String_indexOf_found)
  have ra: "String_replace ''https://secure.actblue.com/donate/alpha'' ACTBLUE_URL_PREFIX [] \<noteq> []"
    by (simp add: ACTBLUE_URL_PREFIX_def)
  have pa: "?P item_alpha"
    using ca ra by (auto simp: ua)
  have rb: "String_replace ''https://secure.actblue.com/donate/'' ACTBLUE_URL_PREFIX [] = []"
    by (simp add: ACTBLUE_URL_PREFIX_def)
  have pb: "\<not> ?P item_bare"
    using rb by (auto simp: ub)
  have "\<not> String_indexOf ''https://example.org/beta'' ACTBLUE_URL_PREFIX \<noteq> - 1"
    by (simp add: ACTBLUE_URL_PREFIX_def)
  then have cc: "\<not> (\<exists>a b. ''https://example.org/beta'' = a @ ACTBLUE_URL_PREFIX @ b)"
    by (simp only: String_indexOf_found simp_thms)
  have pc: "\<not> ?P item_other"
    using cc by (auto simp: uc)
  have "validRecords [item_alpha, item_bare, item_other]
          = map extractRecord (filter ?P [item_alpha, item_bare, item_other])"
    by (rule conjunct1[OF validRecords_produced])
  also have "filter ?P [item_alpha, item_bare, item_other] = [item_alpha]"
    using pa pb pc by simp
  finally show ?thesis by (simp add: a)
qed

text \<open>
  C3, as the claim has it, fails on a URL that is the prefix alone: the URL is
  non-empty and the prefix is found in it at position 0, yet no record is produced.
\<close>

theorem validRecords_bare_prefix_counterexample:
  "actBlueUrl (extractRecord item_bare) \<noteq> []
   \<and> String_indexOf (actBlueUrl (extractRecord item_bare)) ACTBLUE_URL_PREFIX = 0
   \<and> String_replace (actBlueUrl (extractRecord item_bare)) ACTBLUE_URL_PREFIX [] = []
   \<and> validRecords [item_bare] = []"
  by (simp add: validRecords_def extractRecord_def item_bare_def field_or_def field_or_empty_def
        ACTBLUE_URL_PREFIX_def Let_def)

section \<open>Rows read from the sheet\<close>

lemma Array_indexOf_ge: "- 1 \<le> Array_indexOf xs x"
  by (induction xs) (auto simp: Let_def)

lemma Array_indexOf_nth:
  "Array_indexOf xs x = int i \<Longrightarrow> i < length xs \<and> xs ! i = x \<and> (\<forall>j<i. xs ! j \<noteq> x)"
proof (induction xs arbitrary: i)
  case Nil
  then show ?case by simp
next
  case (Cons y ys)
  show ?case
  proof (cases "y = x")
    case True
    with Cons.prems show ?thesis by simp
  next
    case False
    have ge: "- 1 \<le> Array_indexOf ys x" by (rule Array_indexOf_ge)
    from Cons.prems False have ne: "Array_indexOf ys x \<noteq> - 1"
      and i: "int i = Array_indexOf ys x + 1"
      by (auto simp: Let_def split: if_splits)
    from ge ne i have "Array_indexOf ys x = int (i - 1)" "i = Suc (i - 1)"
      by linarith+
    then obtain k where k: "i = Suc k" "Array_indexOf ys x = int k"
      by blast
    from Cons.IH[OF k(2)] have "k < length ys \<and> ys ! k = x \<and> (\<forall>j<k. ys ! j \<noteq> x)" .
    then show ?thesis using k(1) False by (auto simp: nth_Cons split: nat.splits)
  qed
qed

lemma cell_match:
  "(cellTruthy c \<and> Array_includes keys c) = (case c of CStr s \<Rightarrow> s \<noteq> [] \<and> s \<in> set keys | _ \<Rightarrow> False)"
  by (cases c) auto

lemma sheetRowStep_fst:
  "fst (sheetRowStep e keys fi di ni st row)
     = fst st @ (if spec_retained e keys fi di ni row then [spec_sheetRow e fi di ni row] else [])"
  by (simp add: sheetRowStep_def spec_retained_def spec_sheetRow_def Let_def cell_match)

lemma sheet_loop_fst:
  "fst (foldl (sheetRowStep e keys fi di ni) st rows)
     = fst st @ map (spec_sheetRow e fi di ni) (filter (spec_retained e keys fi di ni) rows)"
  by (induction rows arbitrary: st) (simp_all add: sheetRowStep_fst)

text \<open>
  C4. When the sheet exists, has data rows and names the three columns in its header,
  \<open>getSheetData\<close> returns, in the order of the sheet, one row for each data row that
  the specification retains, and no other: the \<open>form_name\<close> cell is a non-empty
  string among the slugs of the records, and \<open>parseFloat(dollars_raised) || 0\<close> or
  \<open>parseInt(num_of_donations) || 0\<close> is positive. The cells are read in the columns
  whose header is the name.
\<close>

theorem getSheetData_rows:
  assumes "getSheetByName e SHEET_NAME = Some values"
      and "1 < length values"
      and "Array_indexOf (hd values) (CStr ''form_name'') = int fi"
      and "Array_indexOf (hd values) (CStr ''dollars_raised'') = int di"
      and "Array_indexOf (hd values) (CStr ''num_of_donations'') = int ni"
  shows "fst (getSheetData e airtableRecords w)
           = map (spec_sheetRow e fi di ni)
               (filter (spec_retained e (map formSlug airtableRecords) fi di ni) (tl values))
         \<and> hd values ! fi = CStr ''form_name''
         \<and> hd values ! di = CStr ''dollars_raised''
         \<and> hd values ! ni = CStr ''num_of_donations''"
  using assms Array_indexOf_nth[OF assms(3)] Array_indexOf_nth[OF assms(4)] Array_indexOf_nth[OF assms(5)]
  by (simp add: getSheetData_def Let_def sheet_loop_fst)

theorem getSheetData_rows_witness:
  "fst (getSheetData demo_env demo_records world0)
     = [\<lparr>formName = ''alpha'', dollarsRaised = 10.5, numDonations = 2\<rparr>,
        \<lparr>formName = ''alpha'', dollarsRaised = 4.5, numDonations = 1\<rparr>,
        \<lparr>formName = ''beta'', dollarsRaised = 7, numDonations = 0\<rparr>]"
proof -
  have sheet: "getSheetByName demo_env SHEET_NAME = Some demo_grid"
    by (simp add: demo_env_def SHEET_NAME_def)
  have len: "1 < length demo_grid"
    by (simp add: demo_grid_def)
  have fi: "Array_indexOf (hd demo_grid) (CStr ''form_name'') = int 2"
    by (simp add: demo_grid_def)
  have di: "Array_indexOf (hd demo_grid) (CStr ''dollars_raised'') = int 3"
    by (simp add: demo_grid_def)
  have ni: "Array_indexOf (hd demo_grid) (CStr ''num_of_donations'') = int 1"
    by (simp add: demo_grid_def)
  have pf: "parseFloat demo_env = demo_parseFloat" and pint: "parseInt demo_env = demo_parseInt"
    by (simp_all add: demo_env_def)
  show ?thesis
    using getSheetData_rows[OF sheet len fi di ni, of demo_records world0]
    by (simp add: demo_grid_def demo_records_def spec_retained_def spec_sheetRow_def cellAt_def
          parseFloat_or_0_def parseInt_or_0_def pf pint demo_parseFloat_def demo_parseInt_def)
qed

section \<open>The rate limiter\<close>

text \<open>
  C5. With no stored timestamp the check answers false. With a stored timestamp (a
  non-empty string that parses to the time \<open>lastSyncTime\<close>) it answers true exactly
  when the elapsed hours are below \<open>RATE_LIMIT_HOURS\<close>, that is when fewer than
  3600000 milliseconds have passed; at the threshold and beyond it answers false.
\<close>

theorem shouldRespectRateLimit_threshold:
  "(props w RATE_LIMIT_PROP_KEY = None \<longrightarrow> fst (shouldRespectRateLimit e now w) = False)
   \<and> (props w RATE_LIMIT_PROP_KEY = Some s \<and> s \<noteq> [] \<and> Date_parse e s = Some lastSyncTime \<longrightarrow>
        fst (shouldRespectRateLimit e now w)
          = (real_of_int (now - lastSyncTime) / (1000 * 60 * 60) < RATE_LIMIT_HOURS)
        \<and> fst (shouldRespectRateLimit e now w) = (now - lastSyncTime < 3600000))"
  by (auto simp: shouldRespectRateLimit_def Let_def RATE_LIMIT_HOURS_def)

theorem shouldRespectRateLimit_threshold_witness:
  "fst (shouldRespectRateLimit demo_env 1704070799999 world0) = False
   \<and> fst (shouldRespectRateLimit demo_env 1704070799999 world_stamped) = True
   \<and> fst (shouldRespectRateLimit demo_env 1704070800000 world_stamped) = False"
proof -
  have n: "props world0 RATE_LIMIT_PROP_KEY = None"
    by (simp add: world0_def)
  have s: "props world_stamped RATE_LIMIT_PROP_KEY = Some ''2024-01-01T00:00:00.000Z''
           \<and> ''2024-01-01T00:00:00.000Z'' \<noteq> []
           \<and> Date_parse demo_env ''2024-01-01T00:00:00.000Z'' = Some 1704067200000"
    by (simp add: world_stamped_def world0_def demo_env_def demo_Date_parse_def)
  show ?thesis
    using shouldRespectRateLimit_threshold[where w = world0 and e = demo_env and now = 1704070799999] n
      shouldRespectRateLimit_threshold[where w = world_stamped and e = demo_env
        and s = "''2024-01-01T00:00:00.000Z''" and lastSyncTime = 1704067200000
        and now = 1704070799999]
      shouldRespectRateLimit_threshold[where w = world_stamped and e = demo_env
        and s = "''2024-01-01T00:00:00.000Z''" and lastSyncTime = 1704067200000
        and now = 1704070800000] s
    by (simp add: RATE_LIMIT_HOURS_def)
qed

text \<open>
  C10. A stored string that does not parse as a date makes the elapsed hours \<open>NaN\<close>,
  the comparison false, and the check answers false; all it does to the world is to
  read the property.
\<close>

theorem shouldRespectRateLimit_unparseable:
  "props w RATE_LIMIT_PROP_KEY = Some s \<Longrightarrow> Date_parse e s = None
     \<Longrightarrow> shouldRespectRateLimit e now w
           = (False, w\<lparr>propAccess := propAccess w @ [GetProperty RATE_LIMIT_PROP_KEY]\<rparr>)"
  by (auto simp: shouldRespectRateLimit_def Let_def getProperty_def)

theorem shouldRespectRateLimit_unparseable_witness:
  "props world_corrupt RATE_LIMIT_PROP_KEY = Some ''yesterday''
   \<and> Date_parse demo_env ''yesterday'' = None
   \<and> fst (shouldRespectRateLimit demo_env 1704070799999 world_corrupt) = False"
proof -
  have p: "props world_corrupt RATE_LIMIT_PROP_KEY = Some ''yesterday''"
    by (simp add: world_corrupt_def world0_def)
  have d: "Date_parse demo_env ''yesterday'' = None"
    by (simp add: demo_env_def demo_Date_parse_def)
  show ?thesis
    using shouldRespectRateLimit_unparseable[OF p d, of 1704070799999] p d by simp
qed

section \<open>Updates sent to Airtable\<close>

lemma updateRecord_effect:
  "httpTrace (snd (snd (updateRecord e st r i))) = httpTrace (snd (snd st)) @ [patchRequest r]
   \<and> props (snd (snd (updateRecord e st r i))) = props (snd (snd st))
   \<and> propAccess (snd (snd (updateRecord e st r i))) = propAccess (snd (snd st))
   \<and> fst (updateRecord e st r i)
       = fst st + (if isSuccess (server e (httpTrace (snd (snd st))) (patchRequest r)) then 1 else 0)
   \<and> fst (snd (updateRecord e st r i))
       = fst (snd st) + (if isSuccess (server e (httpTrace (snd (snd st))) (patchRequest r)) then 0 else 1)"
  by (simp add: updateRecord_def Let_def split: http_reply.splits)

lemma successes_le: "successes e t rs \<le> length rs"
proof (induction rs arbitrary: t)
  case Nil
  then show ?case by simp
next
  case (Cons r rs)
  from Cons.IH[of "t @ [patchRequest r]"] show ?case by simp
qed

lemma updateLoop_effect:
  "httpTrace (snd (snd (updateLoop e i st rs))) = httpTrace (snd (snd st)) @ map patchRequest rs
   \<and> props (snd (snd (updateLoop e i st rs))) = props (snd (snd st))
   \<and> propAccess (snd (snd (updateLoop e i st rs))) = propAccess (snd (snd st))
   \<and> fst (updateLoop e i st rs) = fst st + successes e (httpTrace (snd (snd st))) rs
   \<and> fst (snd (updateLoop e i st rs))
       = fst (snd st) + (length rs - successes e (httpTrace (snd (snd st))) rs)"
proof (induction rs arbitrary: i st)
  case Nil
  then show ?case by simp
next
  case (Cons r rs)
  have le': "successes e (httpTrace (snd (snd st)) @ [patchRequest r]) rs \<le> length rs"
    by (rule successes_le)
  show ?case
    using Cons.IH[of "Suc i" "updateRecord e st r i"] updateRecord_effect[of e st r i] le'
    by (simp del: isSuccess.simps)
qed

text \<open>
  C6. The loop of \<open>updateAirtable\<close> sends one update request for each instruction, in
  the order of the list, whatever the earlier requests met: the requests made are the
  history so far followed by the request of each instruction. \<open>successCount\<close> ends as
  the number of requests answered with status 200 and \<open>errorCount\<close> as the number of
  the others (another status, or a \<open>fetch\<close> that throws), so the two add up to the
  number of instructions, and the last log line reports them. Writing a log row and
  sleeping are taken not to fail.
\<close>

theorem updateAirtable_attempts_every_instruction:
  "fst (updateLoop e 0 (0, 0, w) processedData) = successes e (httpTrace w) processedData
   \<and> fst (snd (updateLoop e 0 (0, 0, w) processedData))
       = length processedData - successes e (httpTrace w) processedData
   \<and> fst (updateLoop e 0 (0, 0, w) processedData) + fst (snd (updateLoop e 0 (0, 0, w) processedData))
       = length processedData
   \<and> httpTrace (snd (snd (updateLoop e 0 (0, 0, w) processedData)))
       = httpTrace w @ map patchRequest processedData
   \<and> httpTrace (updateAirtable e processedData w) = httpTrace w @ map patchRequest processedData
   \<and> last (logs (updateAirtable e processedData w))
       = (INFO, [Str ''Update complete: '',
                 Val (Num (real (successes e (httpTrace w) processedData))),
                 Str '' successful, '',
                 Val (Num (real (length processedData - successes e (httpTrace w) processedData))),
                 Str '' failed''])"
  using updateLoop_effect[of e 0 "(0, 0, w)" processedData]
    updateLoop_effect[of e 0 "(0, 0, logMessage [Str ''Updating '', Val (Num (real (length processedData))),
                           Str '' Airtable records...''] w)" processedData]
    successes_le[of e "httpTrace w" processedData]
  by (simp add: updateAirtable_def Let_def)

theorem updateAirtable_attempts_every_instruction_witness:
  "fst (updateLoop demo_env 0 (0, 0, world0\<lparr>httpTrace := [getRequest]\<rparr>) demo_instructions) = 1
   \<and> fst (snd (updateLoop demo_env 0 (0, 0, world0\<lparr>httpTrace := [getRequest]\<rparr>) demo_instructions)) = 2
   \<and> httpTrace (updateAirtable demo_env demo_instructions (world0\<lparr>httpTrace := [getRequest]\<rparr>))
       = getRequest # map patchRequest demo_instructions"
proof -
  have s: "successes demo_env (httpTrace (world0\<lparr>httpTrace := [getRequest]\<rparr>)) demo_instructions = 1"
    by (simp add: demo_env_def demo_server_def demo_instructions_def patchRequest_def)
  show ?thesis
    using updateAirtable_attempts_every_instruction[of demo_env "world0\<lparr>httpTrace := [getRequest]\<rparr>"
        demo_instructions] s
    by (simp add: demo_instructions_def)
qed

section \<open>The whole run\<close>

lemma fetchAirtableRecords_effect:
  "httpTrace (snd (fetchAirtableRecords e w)) = httpTrace w @ [getRequest]
   \<and> props (snd (fetchAirtableRecords e w)) = props w
   \<and> propAccess (snd (fetchAirtableRecords e w)) = propAccess w"
  by (simp add: fetchAirtableRecords_def Let_def split: http_reply.splits option.splits)

lemma fetchAirtableRecords_records:
  "server e (httpTrace w) getRequest = Reply code (Some items)
     \<Longrightarrow> fst (fetchAirtableRecords e w) = validRecords items"
  by (simp add: fetchAirtableRecords_def Let_def)

lemma sheetRowStep_world:
  "httpTrace (snd (snd (snd (sheetRowStep e keys fi di ni st row)))) = httpTrace (snd (snd (snd st)))
   \<and> props (snd (snd (snd (sheetRowStep e keys fi di ni st row)))) = props (snd (snd (snd st)))
   \<and> propAccess (snd (snd (snd (sheetRowStep e keys fi di ni st row))))
       = propAccess (snd (snd (snd st)))"
  by (simp add: sheetRowStep_def Let_def)

lemma sheet_loop_world:
  "httpTrace (snd (snd (snd (foldl (sheetRowStep e keys fi di ni) st rows))))
     = httpTrace (snd (snd (snd st)))
   \<and> props (snd (snd (snd (foldl (sheetRowStep e keys fi di ni) st rows))))
       = props (snd (snd (snd st)))
   \<and> propAccess (snd (snd (snd (foldl (sheetRowStep e keys fi di ni) st rows))))
       = propAccess (snd (snd (snd st)))"
  by (induction rows arbitrary: st) (simp_all add: sheetRowStep_world)

lemma getSheetData_effect:
  "httpTrace (snd (getSheetData e airtableRecords w)) = httpTrace w
   \<and> props (snd (getSheetData e airtableRecords w)) = props w
   \<and> propAccess (snd (getSheetData e airtableRecords w)) = propAccess w"
  by (simp add: getSheetData_def Let_def sheet_loop_world split: option.splits)

lemma getSheetData_any_world:
  "fst (getSheetData e airtableRecords w) = fst (getSheetData e airtableRecords w')"
  by (simp add: getSheetData_def Let_def sheet_loop_fst split: option.splits)

lemma processData_effect:
  "httpTrace (snd (processData airtableRecords sheetData w)) = httpTrace w
   \<and> props (snd (processData airtableRecords sheetData w)) = props w
   \<and> propAccess (snd (processData airtableRecords sheetData w)) = propAccess w"
  by (simp add: processData_def Let_def)

lemma processData_any_world:
  "fst (processData airtableRecords sheetData w) = fst (processData airtableRecords sheetData w')"
  by (simp add: processData_def Let_def)

lemma updateAirtable_effect:
  "httpTrace (updateAirtable e processedData w) = httpTrace w @ map patchRequest processedData
   \<and> props (updateAirtable e processedData w) = props w
   \<and> propAccess (updateAirtable e processedData w) = propAccess w"
  using updateLoop_effect[of e 0 "(0, 0, logMessage [Str ''Updating '',
            Val (Num (real (length processedData))), Str '' Airtable records...''] w)" processedData]
  by (simp add: updateAirtable_def Let_def)

lemma syncData_props:
  "props (syncData e w) = props w \<and> propAccess (syncData e w) = propAccess w"
  by (simp add: syncData_def Let_def fetchAirtableRecords_effect getSheetData_effect
        processData_effect updateAirtable_effect)

lemma syncData_trace:
  "httpTrace (syncData e w) =
     httpTrace w @ getRequest #
       (if fst (fetchAirtableRecords e w) = []
           \<or> fst (getSheetData e (fst (fetchAirtableRecords e w)) w) = []
        then []
        else map patchRequest
               (fst (processData (fst (fetchAirtableRecords e w))
                      (fst (getSheetData e (fst (fetchAirtableRecords e w)) w)) w)))"
proof -
  let ?w1 = "logMessage [Str ''Starting sync process...''] w"
  have r: "fst (fetchAirtableRecords e ?w1) = fst (fetchAirtableRecords e w)"
    by (simp add: fetchAirtableRecords_def Let_def split: http_reply.splits option.splits)
  let ?R = "fst (fetchAirtableRecords e w)"
  let ?w2 = "snd (fetchAirtableRecords e ?w1)"
  have s: "fst (getSheetData e ?R ?w2) = fst (getSheetData e ?R w)"
    by (rule getSheetData_any_world)
  let ?S = "fst (getSheetData e ?R w)"
  let ?w3 = "snd (getSheetData e ?R ?w2)"
  have p: "fst (processData ?R ?S ?w3) = fst (processData ?R ?S w)"
    by (rule processData_any_world)
  show ?thesis
    by (simp add: syncData_def Let_def r s p fetchAirtableRecords_effect getSheetData_effect
          processData_effect updateAirtable_effect)
qed

text \<open>
  C7. Two runs of \<open>syncData\<close> in the same environment (the same sheet), from any two
  worlds (other log rows, another request history, other properties) in which the
  server answers the read with the same records, fetch the same records, compute the
  same update instructions and send the same requests: the read, then one update for
  each instruction, with the same values. The two responses need only give the same
  records with a slug; the second run may start from the world the first one left.
\<close>

theorem syncData_repeatable:
  assumes "server e (httpTrace w1) getRequest = Reply code1 (Some items1)"
      and "server e (httpTrace w2) getRequest = Reply code2 (Some items2)"
      and "validRecords items1 = validRecords items2"
  shows "drop (length (httpTrace w1)) (httpTrace (syncData e w1))
           = drop (length (httpTrace w2)) (httpTrace (syncData e w2))
         \<and> fst (fetchAirtableRecords e w1) = fst (fetchAirtableRecords e w2)
         \<and> fst (processData (fst (fetchAirtableRecords e w1))
                  (fst (getSheetData e (fst (fetchAirtableRecords e w1)) wa)) wb)
             = fst (processData (fst (fetchAirtableRecords e w2))
                  (fst (getSheetData e (fst (fetchAirtableRecords e w2)) wc)) wd)"
proof -
  have r1: "fst (fetchAirtableRecords e w1) = validRecords items2"
    using assms(1) assms(3) by (simp add: fetchAirtableRecords_records)
  have r2: "fst (fetchAirtableRecords e w2) = validRecords items2"
    using assms(2) by (rule fetchAirtableRecords_records)
  have s: "fst (getSheetData e (validRecords items2) w) = fst (getSheetData e (validRecords items2) wa)"
    for w
    by (rule getSheetData_any_world)
  have p: "fst (processData (validRecords items2) rows w) = fst (processData (validRecords items2) rows wb)"
    for rows w
    by (rule processData_any_world)
  show ?thesis
    unfolding syncData_trace r1 r2 s[of w1] s[of w2] s[of wc] p[of _ w1] p[of _ w2] p[of _ wd]
    by simp
qed

text \<open>
  The run of the specification's scenario in the demonstration environment: the read,
  then the update of the record of \<open>alpha\<close> with 15 and 3, then the update of the record
  of \<open>beta\<close> with 7 and 0.
\<close>

lemma demo_extract:
  "extractRecord item_alpha = \<lparr>airtableId = ''rec1'',
      actBlueUrl = ''https://secure.actblue.com/donate/alpha'', formSlug = ''alpha''\<rparr>"
  "extractRecord item_bare = \<lparr>airtableId = ''rec2'',
      actBlueUrl = ''https://secure.actblue.com/donate/'', formSlug = []\<rparr>"
  "extractRecord item_other = \<lparr>airtableId = ''rec3'',
      actBlueUrl = ''https://example.org/beta'', formSlug = []\<rparr>"
  "extractRecord item_beta = \<lparr>airtableId = ''rec4'',
      actBlueUrl = ''https://secure.actblue.com/donate/beta'', formSlug = ''beta''\<rparr>"
  by (simp_all add: extractRecord_def item_alpha_def item_bare_def item_other_def item_beta_def
        field_or_def field_or_empty_def ACTBLUE_URL_PREFIX_def Let_def)

lemma demo_validRecords:
  "validRecords demo_items = demo_records" "validRecords demo_items_later = demo_records"
  by (simp_all add: validRecords_def demo_items_def demo_items_later_def demo_records_def
        demo_extract)

lemma demo_reads:
  "server demo_env [] getRequest = Reply 200 (Some demo_items)"
  "trace \<noteq> [] \<Longrightarrow> server demo_env trace getRequest = Reply 200 (Some demo_items_later)"
  by (simp_all add: demo_env_def demo_server_def getRequest_def)

lemma demo_sheetData:
  "fst (getSheetData demo_env demo_records w)
     = [\<lparr>formName = ''alpha'', dollarsRaised = 10.5, numDonations = 2\<rparr>,
        \<lparr>formName = ''alpha'', dollarsRaised = 4.5, numDonations = 1\<rparr>,
        \<lparr>formName = ''beta'', dollarsRaised = 7, numDonations = 0\<rparr>]"
proof -
  have sheet: "getSheetByName demo_env SHEET_NAME = Some demo_grid"
    by (simp add: demo_env_def SHEET_NAME_def)
  have h: "hd demo_grid
             = [CStr ''date'', CStr ''num_of_donations'', CStr ''form_name'', CStr ''dollars_raised'']"
      "length demo_grid = 6"
    by (simp_all add: demo_grid_def)
  have "fst (getSheetData demo_env demo_records w)
          = map (spec_sheetRow demo_env 2 3 1)
              (filter (spec_retained demo_env (map formSlug demo_records) 2 3 1) (tl demo_grid))"
    by (simp add: getSheetData_def Let_def sheet_loop_fst sheet h)
  also have "\<dots> = [\<lparr>formName = ''alpha'', dollarsRaised = 10.5, numDonations = 2\<rparr>,
        \<lparr>formName = ''alpha'', dollarsRaised = 4.5, numDonations = 1\<rparr>,
        \<lparr>formName = ''beta'', dollarsRaised = 7, numDonations = 0\<rparr>]"
    by (simp add: demo_grid_def demo_records_def spec_retained_def spec_sheetRow_def cellAt_def
          parseFloat_or_0_def parseInt_or_0_def demo_env_def demo_parseFloat_def
          demo_parseInt_def)
  finally show ?thesis .
qed

lemma demo_processData:
  "fst (processData demo_records
          [\<lparr>formName = ''alpha'', dollarsRaised = 10.5, numDonations = 2\<rparr>,
           \<lparr>formName = ''alpha'', dollarsRaised = 4.5, numDonations = 1\<rparr>,
           \<lparr>formName = ''beta'', dollarsRaised = 7, numDonations = 0\<rparr>] w)
     = [\<lparr>recordId = ''rec1'', raised = Num 15, donations = Num 3\<rparr>,
        \<lparr>recordId = ''rec4'', raised = Num 7, donations = Num 0\<rparr>]"
  by (simp add: processData_def matchRecord_def js_or_def aggregate_def aggregateItem_def
        js_get_def js_set_def Object_prototype_names_def demo_records_def Let_def)

lemma demo_run:
  "httpTrace (syncData demo_env world0)
     = [getRequest,
        patchRequest \<lparr>recordId = ''rec1'', raised = Num 15, donations = Num 3\<rparr>,
        patchRequest \<lparr>recordId = ''rec4'', raised = Num 7, donations = Num 0\<rparr>]"
proof -
  have t: "httpTrace world0 = []" by (simp add: world0_def)
  have r: "fst (fetchAirtableRecords demo_env world0) = demo_records"
    using fetchAirtableRecords_records[of demo_env world0 200 demo_items] demo_reads(1)
    by (simp add: t demo_validRecords)
  show ?thesis
    unfolding syncData_trace r demo_sheetData demo_processData
    by (simp add: t demo_records_def)
qed

theorem syncData_repeatable_witness:
  "drop (length (httpTrace world0)) (httpTrace (syncData demo_env world0))
     = [getRequest,
        patchRequest \<lparr>recordId = ''rec1'', raised = Num 15, donations = Num 3\<rparr>,
        patchRequest \<lparr>recordId = ''rec4'', raised = Num 7, donations = Num 0\<rparr>]
   \<and> drop (length (httpTrace (syncData demo_env world0)))
         (httpTrace (syncData demo_env (syncData demo_env world0)))
       = [getRequest,
          patchRequest \<lparr>recordId = ''rec1'', raised = Num 15, donations = Num 3\<rparr>,
          patchRequest \<lparr>recordId = ''rec4'', raised = Num 7, donations = Num 0\<rparr>]"
proof -
  have first: "server demo_env (httpTrace world0) getRequest = Reply 200 (Some demo_items)"
    using demo_reads(1) by (simp add: world0_def)
  have "httpTrace (syncData demo_env world0) \<noteq> []"
    by (simp add: demo_run)
  then have second: "server demo_env (httpTrace (syncData demo_env world0)) getRequest
                       = Reply 200 (Some demo_items_later)"
    by (rule demo_reads(2))
  have same: "validRecords demo_items = validRecords demo_items_later"
    by (simp add: demo_validRecords)
  have eq: "drop (length (httpTrace world0)) (httpTrace (syncData demo_env world0))
              = drop (length (httpTrace (syncData demo_env world0)))
                  (httpTrace (syncData demo_env (syncData demo_env world0)))"
    by (rule conjunct1[OF syncData_repeatable[OF first second same]])
  have one: "drop (length (httpTrace world0)) (httpTrace (syncData demo_env world0))
     = [getRequest,
        patchRequest \<lparr>recordId = ''rec1'', raised = Num 15, donations = Num 3\<rparr>,
        patchRequest \<lparr>recordId = ''rec4'', raised = Num 7, donations = Num 0\<rparr>]"
    by (simp add: demo_run) (simp add: world0_def)
  show ?thesis
    by (rule conjI[OF one trans[OF sym[OF eq] one]])
qed

text \<open>
  C9. \<open>manualSyncData\<close> leaves the script properties as they are and makes no access
  to them, neither a read nor a write. \<open>onEdit\<close> reads the stored time when the edit
  is in the data sheet, and writes it only when, in addition, the rate-limit check
  answers false; it writes the time of that moment.
\<close>

theorem manualSyncData_keeps_rate_limit_time:
  "props (manualSyncData e w) = props w
   \<and> propAccess (manualSyncData e w) = propAccess w
   \<and> props (onEdit e activeSheetName now1 now2 w)
       = (if activeSheetName = SHEET_NAME \<and> \<not> fst (shouldRespectRateLimit e now1 w)
          then (props w)(RATE_LIMIT_PROP_KEY \<mapsto> toISOString e now2)
          else props w)
   \<and> propAccess (onEdit e activeSheetName now1 now2 w)
       = propAccess w @
           (if activeSheetName \<noteq> SHEET_NAME then []
            else if fst (shouldRespectRateLimit e now1 w) then [GetProperty RATE_LIMIT_PROP_KEY]
            else [GetProperty RATE_LIMIT_PROP_KEY,
                  SetProperty RATE_LIMIT_PROP_KEY (toISOString e now2)])"
proof -
  have sr: "props (snd (shouldRespectRateLimit e now1 w)) = props w
            \<and> propAccess (snd (shouldRespectRateLimit e now1 w))
                = propAccess w @ [GetProperty RATE_LIMIT_PROP_KEY]"
    by (simp add: shouldRespectRateLimit_def Let_def getProperty_def split: option.splits)
  show ?thesis
    using sr
    by (simp add: manualSyncData_def onEdit_def Let_def syncData_props updateLastSyncTime_def)
qed

theorem manualSyncData_keeps_rate_limit_time_witness:
  "props (manualSyncData demo_env world_stamped) RATE_LIMIT_PROP_KEY
     = Some ''2024-01-01T00:00:00.000Z''
   \<and> propAccess (manualSyncData demo_env world_stamped) = []
   \<and> props (onEdit demo_env ''raw_import'' 1704070800000 1704070800000 world_stamped)
        RATE_LIMIT_PROP_KEY = Some ''2024-01-01T01:00:00.000Z''
   \<and> props (onEdit demo_env ''raw_import'' 1704070799999 1704070799999 world_stamped)
        RATE_LIMIT_PROP_KEY = Some ''2024-01-01T00:00:00.000Z''"
proof -
  have skip: "fst (shouldRespectRateLimit demo_env 1704070799999 world_stamped)"
    by (simp add: shouldRespectRateLimit_def Let_def RATE_LIMIT_HOURS_def world_stamped_def
          world0_def demo_env_def demo_Date_parse_def)
  have pass: "\<not> fst (shouldRespectRateLimit demo_env 1704070800000 world_stamped)"
    by (simp add: shouldRespectRateLimit_def Let_def RATE_LIMIT_HOURS_def world_stamped_def
          world0_def demo_env_def demo_Date_parse_def)
  have iso: "toISOString demo_env 1704070800000 = ''2024-01-01T01:00:00.000Z''"
    by (simp add: demo_env_def demo_toISOString_def)
  have p: "props world_stamped RATE_LIMIT_PROP_KEY = Some ''2024-01-01T00:00:00.000Z''"
      "propAccess world_stamped = []"
    by (simp_all add: world_stamped_def world0_def)
  show ?thesis
    using manualSyncData_keeps_rate_limit_time[of demo_env world_stamped "''raw_import''"
        1704070800000 1704070800000]
      manualSyncData_keeps_rate_limit_time[of demo_env world_stamped "''raw_import''"
        1704070799999 1704070799999] skip pass iso p
    by (simp add: SHEET_NAME_def)
qed

section \<open>The multi-destination script\<close>

text \<open>
  The update loop of the multi-destination script behaves as the one above: with the
  API key in the script properties, one request for each instruction, in order, and
  each instruction counted once as a success or as an error.
\<close>

lemma updateRecord_multi_effect:
  "httpTrace (snd (snd (updateRecord_multi e cfg key st r i)))
     = httpTrace (snd (snd st)) @ [patchRequest_multi cfg key r]
   \<and> props (snd (snd (updateRecord_multi e cfg key st r i))) = props (snd (snd st))
   \<and> propAccess (snd (snd (updateRecord_multi e cfg key st r i))) = propAccess (snd (snd st))
   \<and> fst (updateRecord_multi e cfg key st r i) + fst (snd (updateRecord_multi e cfg key st r i))
       = fst st + fst (snd st) + 1"
  by (simp add: updateRecord_multi_def Let_def split: http_reply.splits)

lemma updateLoop_multi_effect:
  "httpTrace (snd (snd (updateLoop_multi e cfg key i st rs)))
     = httpTrace (snd (snd st)) @ map (patchRequest_multi cfg key) rs
   \<and> props (snd (snd (updateLoop_multi e cfg key i st rs))) = props (snd (snd st))
   \<and> propAccess (snd (snd (updateLoop_multi e cfg key i st rs))) = propAccess (snd (snd st))
   \<and> fst (updateLoop_multi e cfg key i st rs) + fst (snd (updateLoop_multi e cfg key i st rs))
       = fst st + fst (snd st) + length rs"
proof (induction rs arbitrary: i st)
  case Nil
  then show ?case by simp
next
  case (Cons r rs)
  show ?case
    using Cons.IH[of "Suc i" "updateRecord_multi e cfg key st r i"]
      updateRecord_multi_effect[of e cfg key st r i]
    by simp
qed

lemma updateAirtable_multi_requests:
  assumes "props w AIRTABLE_API_KEY_PROP = Some key" and "key \<noteq> []"
  shows "httpTrace (updateAirtable_multi e cfg processedData w)
           = httpTrace w @ map (patchRequest_multi cfg key) processedData"
  using assms
    updateLoop_multi_effect[of e cfg key 0
      "(0, 0, snd (getProperty AIRTABLE_API_KEY_PROP
          (logMessage [Str ''Updating '', Val (Num (real (length processedData))),
             Str '' Airtable records in base '', Str (baseId cfg), Str ''...''] w)))" processedData]
  by (simp add: updateAirtable_multi_def Let_def field_or_empty_def)

section \<open>Targets left blank\<close>

text \<open>
  C8. In the multi-destination script, a target whose \<open>baseId\<close> or \<open>tableId\<close> is blank
  is skipped: its turn adds one log row and nothing else, so no request is made and no
  property is touched, and the loop goes on with the targets after it.
\<close>

theorem syncTarget_blank_skipped:
  assumes "baseId cfg = [] \<or> tableId cfg = []"
  shows "syncTarget e w cfg = logMessage [Str ''Skipping target with blank Base/Table IDs''] w
         \<and> httpTrace (syncTarget e w cfg) = httpTrace w
         \<and> logs (syncTarget e w cfg)
             = logs w @ [(INFO, [Str ''Skipping target with blank Base/Table IDs''])]
         \<and> props (syncTarget e w cfg) = props w
         \<and> propAccess (syncTarget e w cfg) = propAccess w
         \<and> foldl (syncTarget e) w (before @ cfg # after)
             = foldl (syncTarget e)
                 (logMessage [Str ''Skipping target with blank Base/Table IDs'']
                    (foldl (syncTarget e) w before))
                 after"
  using assms by (auto simp: syncTarget_def)

theorem syncTarget_blank_skipped_witness:
  "httpTrace (syncTarget demo_env world0 \<lparr>baseId = [], tableId = ''x''\<rparr>) = []
   \<and> logs (syncTarget demo_env world0 \<lparr>baseId = [], tableId = ''x''\<rparr>)
       = [(INFO, [Str ''Skipping target with blank Base/Table IDs''])]
   \<and> syncTarget demo_env world0 (AIRTABLE_TARGETS ! 1)
       = logMessage [Str ''Skipping target with blank Base/Table IDs''] world0"
proof -
  have a: "baseId \<lparr>baseId = [], tableId = ''x''\<rparr> = [] \<or> tableId \<lparr>baseId = [], tableId = ''x''\<rparr> = []"
    by simp
  have b: "baseId (AIRTABLE_TARGETS ! 1) = [] \<or> tableId (AIRTABLE_TARGETS ! 1) = []"
    by (simp add: AIRTABLE_TARGETS_def)
  show ?thesis
    using syncTarget_blank_skipped[OF a, of demo_env world0]
      syncTarget_blank_skipped[OF b, of demo_env world0]
    by (simp add: world0_def)
qed

section \<open>Where the code departs from the claims\<close>

lemma zero_sheetData: "fst (getSheetData zero_env [record_a] w) = rows_zero_amount"
proof -
  have sheet: "getSheetByName zero_env SHEET_NAME = Some zero_grid"
    by (simp add: zero_env_def SHEET_NAME_def)
  have h: "hd zero_grid = [CStr ''form_name'', CStr ''dollars_raised'', CStr ''num_of_donations'']"
      "length zero_grid = 3"
    by (simp_all add: zero_grid_def)
  have "fst (getSheetData zero_env [record_a] w)
          = map (spec_sheetRow zero_env 0 1 2)
              (filter (spec_retained zero_env (map formSlug [record_a]) 0 1 2) (tl zero_grid))"
    by (simp add: getSheetData_def Let_def sheet_loop_fst sheet h)
  also have "\<dots> = rows_zero_amount"
    by (simp add: zero_grid_def record_a_def rows_zero_amount_def spec_retained_def
          spec_sheetRow_def cellAt_def parseFloat_or_0_def parseInt_or_0_def zero_env_def
          demo_parseFloat_def demo_parseInt_def)
  finally show ?thesis .
qed

lemma zero_records: "validRecords [item_a] = [record_a]"
  by (simp add: validRecords_def extractRecord_def item_a_def record_a_def field_or_def
        field_or_empty_def ACTBLUE_URL_PREFIX_def Let_def)

lemma zero_processData:
  "fst (processData [record_a] rows_zero_amount w)
     = [\<lparr>recordId = ''rec1'', raised = Num 0, donations = Num 3\<rparr>]"
  by (simp add: processData_def matchRecord_def js_or_def aggregate_def aggregateItem_def
        js_get_def js_set_def Object_prototype_names_def rows_zero_amount_def record_a_def Let_def)

text \<open>
  C1. The claim: for every list of rows, the aggregation of \<open>processData\<close> gives each
  form name the sum of the amounts and the sum of the counts of its rows. The code
  departs from it: \<open>!formTotals[formName]\<close> also holds when the running amount is 0,
  and then both objects are set back to 0. For two rows of form \<open>a\<close> with amount 0 and
  counts 2 and 3, the count kept for \<open>a\<close> is 3, while the counts add up to 5, and the
  entry pushed for a record of slug \<open>a\<close> carries 3. \<open>getSheetData\<close> returns these two
  rows for a sheet that has them (a count is positive), and the whole run then asks
  Airtable to set the count of the record to 3.
\<close>

theorem processData_zero_amount_loses_count:
  "js_get (snd (aggregate rows_zero_amount)) ''a'' = Num 3
   \<and> sum_list (map numDonations (filter (\<lambda>r. formName r = ''a'') rows_zero_amount)) = 5
   \<and> fst (processData [record_a] rows_zero_amount w)
       = [\<lparr>recordId = ''rec1'', raised = Num 0, donations = Num 3\<rparr>]
   \<and> fst (getSheetData zero_env [record_a] w) = rows_zero_amount
   \<and> httpTrace (syncData zero_env world0)
       = [getRequest, patchRequest \<lparr>recordId = ''rec1'', raised = Num 0, donations = Num 3\<rparr>]"
proof -
  have agg: "js_get (snd (aggregate rows_zero_amount)) ''a'' = Num 3"
    by (simp add: aggregate_def aggregateItem_def js_get_def js_set_def
          Object_prototype_names_def rows_zero_amount_def Let_def)
  have total: "sum_list (map numDonations (filter (\<lambda>r. formName r = ''a'') rows_zero_amount)) = 5"
    by (simp add: rows_zero_amount_def)
  have t: "httpTrace world0 = []" by (simp add: world0_def)
  have "server zero_env (httpTrace world0) getRequest = Reply 200 (Some [item_a])"
    by (simp add: zero_env_def getRequest_def)
  then have r: "fst (fetchAirtableRecords zero_env world0) = [record_a]"
    using fetchAirtableRecords_records[of zero_env world0 200 "[item_a]"]
    by (simp add: zero_records)
  have run: "httpTrace (syncData zero_env world0)
       = [getRequest, patchRequest \<lparr>recordId = ''rec1'', raised = Num 0, donations = Num 3\<rparr>]"
    unfolding syncData_trace r zero_sheetData zero_processData
    by (simp add: t rows_zero_amount_def)
  show ?thesis
    using agg total zero_processData zero_sheetData run by simp
qed

text \<open>
  C2. The claim: an entry is pushed for a record if and only if its slug is a key of
  the aggregate, and the entry carries the sums of that key. The code departs from it:
  \<open>formTotals[formSlug] !== undefined\<close> reads through the prototype of the plain
  object, so a record whose slug is \<open>constructor\<close> (its URL is the prefix followed by
  that word) is matched although no row has that form name and the slug is a key of
  neither object; the entry carries the inherited function in place of the two sums.
\<close>

theorem processData_matches_inherited_name:
  "''constructor'' \<notin> dom (fst (aggregate rows_one))
   \<and> ''constructor'' \<notin> dom (snd (aggregate rows_one))
   \<and> ''constructor'' \<notin> formName ` set rows_one
   \<and> validRecords [item_a, item_constructor] = [record_a, record_constructor]
   \<and> fst (processData [record_a, record_constructor] rows_one w)
       = [\<lparr>recordId = ''rec1'', raised = Num 1, donations = Num 1\<rparr>,
          \<lparr>recordId = ''rec2'', raised = Junk, donations = Junk\<rparr>]"
proof -
  have v: "validRecords [item_a, item_constructor] = [record_a, record_constructor]"
    by (simp add: validRecords_def extractRecord_def item_a_def item_constructor_def
          record_a_def record_constructor_def field_or_def field_or_empty_def
          ACTBLUE_URL_PREFIX_def Let_def)
  have rest: "''constructor'' \<notin> dom (fst (aggregate rows_one))
   \<and> ''constructor'' \<notin> dom (snd (aggregate rows_one))
   \<and> ''constructor'' \<notin> formName ` set rows_one
   \<and> fst (processData [record_a, record_constructor] rows_one w)
       = [\<lparr>recordId = ''rec1'', raised = Num 1, donations = Num 1\<rparr>,
          \<lparr>recordId = ''rec2'', raised = Junk, donations = Junk\<rparr>]"
    by (simp add: processData_def matchRecord_def js_or_def aggregate_def aggregateItem_def
        js_get_def js_set_def Object_prototype_names_def rows_one_def record_a_def
        record_constructor_def Let_def)
  show ?thesis using v rest by simp
qed

end
